theory Spec2Isabelle
  imports Complex_Main "HOL-Library.Monad_Syntax" "HOL-Library.Sublist"
begin

section \<open>Python primitives shared by both programs\<close>

text \<open>
  Exceptions are values: every function of the source that can raise returns
  \<open>py_error + 'a\<close>, with \<open>Inl\<close> the exception.
\<close>

datatype py_error = TypeError | AttributeError | KeyError | IndexError | ValueError
  | ZeroDivisionError

text \<open>
  \<open>str(n)\<close> for a Python \<open>int\<close>: the decimal digits, with a leading minus sign
  for a negative number.
\<close>

definition digit_char :: "nat \<Rightarrow> char" where
  "digit_char d = ''0123456789'' ! d"

fun str_nat :: "nat \<Rightarrow> string" where
  "str_nat n = (if n < 10 then [digit_char n] else str_nat (n div 10) @ [digit_char (n mod 10)])"

declare str_nat.simps [simp del]

definition str_int :: "int \<Rightarrow> string" where
  "str_int i = (if i < 0 then CHR ''-'' # str_nat (nat (- i)) else str_nat (nat i))"

text \<open>\<open>int(x)\<close> for a Python \<open>float\<close> truncates towards zero.\<close>

definition py_int_of_float :: "real \<Rightarrow> int" where
  "py_int_of_float r = (if 0 \<le> r then \<lfloor>r\<rfloor> else \<lceil>r\<rceil>)"


section \<open>Tilted-Scales/generate.py: the balance-puzzle generator\<close>

subsection \<open>Data model\<close>

text \<open>
  \<open>SHAPES = ["s", "t", "c"]\<close>: the closed alphabet of shape symbols, with the
  string each one is written as.
\<close>

datatype shape = S | T | C

fun shape_sym :: "shape \<Rightarrow> string" where
  "shape_sym S = ''s''"
| "shape_sym T = ''t''"
| "shape_sym C = ''c''"

definition SHAPES :: "shape list" where
  "SHAPES = [S, T, C]"

text \<open>
  One pan of a scale, \<open>{"shapes": {X: .., Y: .., Z: ..}, "weight": ..}\<close>: a dict
  from shape symbols to coefficients and an additive weight.
\<close>

record side =
  shapes :: "shape \<rightharpoonup> int"
  weight :: int

text \<open>
  \<open>{"left": .., "right": ..}\<close> is a scale; the inequality of the easy strategies
  carries an \<open>"op"\<close> key as well, the one of the difficult strategy does not.
\<close>

record scale =
  left :: side
  right :: side

record ineq = scale +
  op :: "string option"

text \<open>The list \<open>[equality, inequality_template, inequality, answer]\<close> a strategy returns.\<close>

record puzzle =
  equality :: scale
  inequality_template :: string
  inequality :: ineq
  answer :: "shape list"

text \<open>
  The meaning of a pan under an assignment of weights to the shapes: the sum of
  coefficient times unit weight over the symbols of the dict, plus the additive
  weight.
\<close>

definition side_total :: "(shape \<Rightarrow> real) \<Rightarrow> side \<Rightarrow> real" where
  "side_total wt sd =
     (\<Sum>sh\<leftarrow>SHAPES. (case shapes sd sh of None \<Rightarrow> 0 | Some k \<Rightarrow> real_of_int k * wt sh))
       + real_of_int (weight sd)"

definition balanced :: "(shape \<Rightarrow> real) \<Rightarrow> scale \<Rightarrow> bool" where
  "balanced wt eq = (side_total wt (left eq) = side_total wt (right eq))"

text \<open>
  A filled template \<open>a op b\<close> read as a statement about two quantities; the
  generator only ever writes the operators \<open>>\<close> and \<open><\<close>.
\<close>

definition holds_op :: "string \<Rightarrow> real \<Rightarrow> real \<Rightarrow> bool" where
  "holds_op o' l r = (if o' = ''>'' then l > r else if o' = ''<'' then l < r else False)"

subsection \<open>Random draws\<close>

text \<open>
  The generator reads the process-wide random source. Each strategy is modelled
  as a function of the values its calls to \<open>random\<close> return, in the order of the
  calls; the ranges of the calls are the predicates \<open>*_draws_ok\<close>.
  \<open>_pick_distinct(vars_list, n)\<close> is \<open>random.sample\<close>: \<open>n\<close> elements taken from
  distinct positions of the list, in any order, so each result element uses up
  one occurrence in the list.
\<close>

fun is_sample :: "'a list \<Rightarrow> 'a list \<Rightarrow> bool" where
  "is_sample vs [] = True"
| "is_sample vs (r # rs) = (r \<in> set vs \<and> is_sample (remove1 r vs) rs)"

definition pick_distinct_ok :: "'a list \<Rightarrow> nat \<Rightarrow> 'a list \<Rightarrow> bool" where
  "pick_distinct_ok vars_list n res = (length res = n \<and> is_sample vars_list res)"

definition choices :: "int \<Rightarrow> int list" where
  "choices k = filter (\<lambda>v. v \<noteq> k) [1..6]"

record prop_draws =
  pd_shapes :: "shape list"
  pd_k1 :: int
  pd_k2 :: int
  pd_add_third :: real
  pd_k3 :: int
  pd_op :: real

definition prop_draws_ok :: "prop_draws \<Rightarrow> bool" where
  "prop_draws_ok d =
     (pick_distinct_ok SHAPES 3 (pd_shapes d)
      \<and> 1 \<le> pd_k1 d \<and> pd_k1 d \<le> 6
      \<and> pd_k2 d \<in> set (choices (pd_k1 d))
      \<and> 0 \<le> pd_add_third d \<and> pd_add_third d < 1
      \<and> 1 \<le> pd_k3 d \<and> pd_k3 d \<le> 4
      \<and> 0 \<le> pd_op d \<and> pd_op d < 1)"

subsection \<open>The easy strategies\<close>

definition blank_side :: "shape \<Rightarrow> shape \<Rightarrow> shape \<Rightarrow> int \<Rightarrow> side" where
  "blank_side X Y Z w = \<lparr>shapes = [X \<mapsto> 0, Y \<mapsto> 0, Z \<mapsto> 0], weight = w\<rparr>"

definition set_coeff :: "shape \<Rightarrow> int \<Rightarrow> side \<Rightarrow> side" where
  "set_coeff sh k sd = sd\<lparr>shapes := (shapes sd)(sh \<mapsto> k)\<rparr>"

definition easy_puzzle_proportional_equality :: "prop_draws \<Rightarrow> py_error + puzzle" where
  "easy_puzzle_proportional_equality d =
     (case pd_shapes d of
        X # Y # Z # _ \<Rightarrow>
          let k1 = pd_k1 d;
              k2 = pd_k2 d;
              k3 = 0;
              eq_left = \<lparr>shapes = [X \<mapsto> k1, Y \<mapsto> 0, Z \<mapsto> k3], weight = 0\<rparr>;
              eq_right = \<lparr>shapes = [X \<mapsto> 0, Y \<mapsto> k2, Z \<mapsto> k3], weight = 0\<rparr>;
              (eq_left, eq_right) =
                 (if pd_add_third d > 0.5
                  then (set_coeff Z (pd_k3 d) eq_left, set_coeff Z (pd_k3 d) eq_right)
                  else (eq_left, eq_right));
              op' = (if pd_op d > 0.5 then ''<'' else ''>'');
              inequality_template' = ''_'' @ op' @ ''_'';
              answer' =
                 (if k1 < k2 then (if op' = ''<'' then [Y, X] else [X, Y])
                  else (if op' = ''<'' then [X, Y] else [Y, X]));
              in_left = set_coeff (answer' ! 0) 1 (blank_side X Y Z 0);
              in_right = set_coeff (answer' ! 1) 1 (blank_side X Y Z 0)
          in Inr \<lparr>equality = \<lparr>left = eq_left, right = eq_right\<rparr>,
                  inequality_template = inequality_template',
                  inequality = \<lparr>left = in_left, right = in_right, op = Some op'\<rparr>,
                  answer = answer'\<rparr>
      | _ \<Rightarrow> Inl IndexError)"

record weighted_draws =
  wd_shapes :: "shape list"
  wd_w1 :: int
  wd_w2 :: int
  wd_k1 :: int
  wd_op :: real

definition weighted_draws_ok :: "weighted_draws \<Rightarrow> bool" where
  "weighted_draws_ok d =
     (pick_distinct_ok SHAPES 3 (wd_shapes d)
      \<and> 1 \<le> wd_w1 d \<and> wd_w1 d \<le> 6
      \<and> wd_w2 d \<in> set (choices (wd_w1 d))
      \<and> 1 \<le> wd_k1 d \<and> wd_k1 d \<le> 4
      \<and> 0 \<le> wd_op d \<and> wd_op d < 1)"

definition easy_puzzle_weighted_equality :: "weighted_draws \<Rightarrow> py_error + puzzle" where
  "easy_puzzle_weighted_equality d =
     (case wd_shapes d of
        X # Y # Z # _ \<Rightarrow>
          let w1 = wd_w1 d;
              w2 = wd_w2 d;
              k1 = wd_k1 d;
              eq_left = \<lparr>shapes = [X \<mapsto> k1, Y \<mapsto> 0, Z \<mapsto> 0], weight = w1\<rparr>;
              eq_right = \<lparr>shapes = [X \<mapsto> 0, Y \<mapsto> k1, Z \<mapsto> 0], weight = w2\<rparr>;
              op' = (if wd_op d > 0.5 then ''<'' else ''>'');
              inequality_template' = ''_'' @ op' @ ''_'';
              answer' =
                 (if w1 < w2 then (if op' = ''>'' then [X, Y] else [Y, X])
                  else (if op' = ''>'' then [Y, X] else [X, Y]));
              in_left = set_coeff (answer' ! 0) 1 (blank_side X Y Z 0);
              in_right = set_coeff (answer' ! 1) 1 (blank_side X Y Z 0)
          in Inr \<lparr>equality = \<lparr>left = eq_left, right = eq_right\<rparr>,
                  inequality_template = inequality_template',
                  inequality = \<lparr>left = in_left, right = in_right, op = Some op'\<rparr>,
                  answer = answer'\<rparr>
      | _ \<Rightarrow> Inl IndexError)"

subsection \<open>The difficult strategy\<close>

text \<open>
  \<open>d = (weights[1] - weights[0]) / k1\<close> is Python's true division, a float, and
  \<open>int(abs(d) - 1)\<close> truncates it. The model computes with exact reals; the
  two agree wherever the quotient is a whole number, which is the case for every
  draw in range (the difference of the two weights is a multiple of \<open>k1\<close>).
  Division by \<open>k1 = 0\<close> raises.
\<close>

record diff_draws =
  dd_shapes :: "shape list"
  dd_k1 :: int
  dd_w :: int
  dd_w_offset :: int
  dd_weights :: "int list"
  dd_escalate :: real
  dd_weight_offset :: int

definition diff_draws_ok :: "diff_draws \<Rightarrow> bool" where
  "diff_draws_ok d =
     (pick_distinct_ok SHAPES 3 (dd_shapes d)
      \<and> 1 \<le> dd_k1 d \<and> dd_k1 d \<le> 3
      \<and> 1 \<le> dd_w d \<and> dd_w d \<le> 4
      \<and> 2 \<le> dd_w_offset d \<and> dd_w_offset d \<le> 4
      \<and> pick_distinct_ok [dd_k1 d * dd_w d, dd_k1 d * (dd_w d + dd_w_offset d)] 2 (dd_weights d)
      \<and> 0 \<le> dd_escalate d \<and> dd_escalate d < 1
      \<and> 1 \<le> dd_weight_offset d \<and> dd_weight_offset d \<le> 5)"

definition add_weight :: "int \<Rightarrow> side \<Rightarrow> side" where
  "add_weight w sd = sd\<lparr>weight := weight sd + w\<rparr>"

definition difficult_puzzle_weighted_equality :: "diff_draws \<Rightarrow> py_error + puzzle" where
  "difficult_puzzle_weighted_equality d =
     (case dd_shapes d of
        X # Y # Z # _ \<Rightarrow>
          (case dd_weights d of
             weights0 # weights1 # _ \<Rightarrow>
               let k1 = dd_k1 d;
                   eq_left = \<lparr>shapes = [X \<mapsto> k1, Y \<mapsto> 0, Z \<mapsto> 0], weight = weights0\<rparr>;
                   eq_right = \<lparr>shapes = [X \<mapsto> 0, Y \<mapsto> k1, Z \<mapsto> 0], weight = weights1\<rparr>
               in if k1 = 0 then Inl ZeroDivisionError
                  else
                    let d' = real_of_int (weights1 - weights0) / real_of_int k1;
                        inequality_weight = py_int_of_float (\<bar>d'\<bar> - 1);
                        inequality_template' = ''_>_+'' @ str_int inequality_weight;
                        answer' = (if d' > 0 then [X, Y] else [Y, X]);
                        in_left = set_coeff (answer' ! 0) 1 (blank_side X Y Z 0);
                        in_right = set_coeff (answer' ! 1) 1 (blank_side X Y Z inequality_weight);
                        (in_left, in_right, inequality_template') =
                           (if dd_escalate d > 0.5
                            then
                              let weight_offset = dd_weight_offset d
                              in (add_weight weight_offset (set_coeff Z 1 in_left),
                                  add_weight weight_offset (set_coeff Z 1 in_right),
                                  ''_+'' @ shape_sym Z @ ''+'' @ str_int weight_offset
                                    @ ''>_+'' @ shape_sym Z @ ''+''
                                    @ str_int (inequality_weight + weight_offset))
                            else (in_left, in_right, inequality_template'))
                    in Inr \<lparr>equality = \<lparr>left = eq_left, right = eq_right\<rparr>,
                            inequality_template = inequality_template',
                            inequality = \<lparr>left = in_left, right = in_right, op = None\<rparr>,
                            answer = answer'\<rparr>
           | _ \<Rightarrow> Inl IndexError)
      | _ \<Rightarrow> Inl IndexError)"

subsection \<open>Removing a shared term\<close>

text \<open>
  Taking one copy of the shape \<open>Z\<close> and the additive weight \<open>off\<close> away from a
  pan: the inverse of what the escalation branch adds to each pan.
\<close>

definition remove_shared :: "shape \<Rightarrow> int \<Rightarrow> side \<Rightarrow> side" where
  "remove_shared Z off sd =
     sd\<lparr>shapes := (case shapes sd Z of None \<Rightarrow> shapes sd | Some c \<Rightarrow> (shapes sd)(Z \<mapsto> c - 1)),
        weight := weight sd - off\<rparr>"

subsection \<open>Example draws\<close>

text \<open>The scenario \<open>k1 = 2\<close>, \<open>k2 = 5\<close> with operator \<open>>\<close>, and weights that balance it.\<close>

definition prop_draws_example :: prop_draws where
  "prop_draws_example =
     \<lparr>pd_shapes = [S, T, C], pd_k1 = 2, pd_k2 = 5, pd_add_third = 7 / 10, pd_k3 = 3, pd_op = 1 / 5\<rparr>"

definition prop_weights_example :: "shape \<Rightarrow> real" where
  "prop_weights_example sh = (case sh of S \<Rightarrow> 5 | T \<Rightarrow> 2 | C \<Rightarrow> 1)"

text \<open>\<open>2t + 6 = 2c + 2\<close> with operator \<open><\<close>, and weights that balance it.\<close>

definition weighted_draws_example :: weighted_draws where
  "weighted_draws_example =
     \<lparr>wd_shapes = [T, C, S], wd_w1 = 6, wd_w2 = 2, wd_k1 = 2, wd_op = 3 / 4\<rparr>"

definition weighted_weights_example :: "shape \<Rightarrow> real" where
  "weighted_weights_example sh = (case sh of S \<Rightarrow> 1 | T \<Rightarrow> 1 | C \<Rightarrow> 3)"


text \<open>The draws of \<open>2s + 14 = 2t + 8\<close>, plain and escalated, and weights that balance it.\<close>

definition diff_draws_example :: diff_draws where
  "diff_draws_example =
     \<lparr>dd_shapes = [S, T, C], dd_k1 = 2, dd_w = 4, dd_w_offset = 3, dd_weights = [14, 8],
      dd_escalate = 1 / 4, dd_weight_offset = 3\<rparr>"

definition diff_draws_escalated :: diff_draws where
  "diff_draws_escalated =
     \<lparr>dd_shapes = [S, T, C], dd_k1 = 2, dd_w = 4, dd_w_offset = 3, dd_weights = [14, 8],
      dd_escalate = 3 / 4, dd_weight_offset = 3\<rparr>"

definition diff_weights_example :: "shape \<Rightarrow> real" where
  "diff_weights_example sh = (case sh of S \<Rightarrow> 1 | T \<Rightarrow> 4 | C \<Rightarrow> 2)"


section \<open>Writing-Equations/validate.py: the price-puzzle validator\<close>

subsection \<open>JSON values\<close>

text \<open>
  The validator reads what \<open>json.loads\<close> returns: \<open>None\<close>, booleans, integers,
  strings, lists and dicts with string keys. A dict is the list of its items,
  with distinct keys. Two things are left out of the model: numbers with a
  fraction or an exponent (Python floats), and characters beyond code point 255;
  a \<open>char\<close> stands for one code point below 256. An integer of the input has at
  most 4300 digits, the longest that \<open>json.loads\<close> reads.

  An uncaught exception, whatever its class, is \<open>None\<close> in a result of type
  \<open>'a option\<close>.
\<close>

datatype json = JNull | JBool bool | JInt int | JStr string | JList "json list"
  | JObj "(string \<times> json) list"

subsection \<open>Python strings\<close>

definition sq :: string where
  "sq = [CHR 0x27]"

definition quoted :: "string \<Rightarrow> string" where
  "quoted s = sq @ s @ sq"

text \<open>\<open>str.strip()\<close> removes the whitespace code points at both ends.\<close>

definition py_isspace :: "char \<Rightarrow> bool" where
  "py_isspace c = (c \<in> set [CHR 0x09, CHR 0x0A, CHR 0x0B, CHR 0x0C, CHR 0x0D, CHR 0x1C, CHR 0x1D,
     CHR 0x1E, CHR 0x1F, CHR 0x20, CHR 0x85, CHR 0xA0])"

definition py_strip :: "string \<Rightarrow> string" where
  "py_strip s = rev (dropWhile py_isspace (rev (dropWhile py_isspace s)))"

text \<open>
  \<open>str.lower()\<close>: the letters \<open>A\<close> to \<open>Z\<close>, and the capital letters of the
  Latin-1 block (code points 192 to 222 without the multiplication sign 215),
  move to their small letters.
\<close>

definition lower_char :: "char \<Rightarrow> char" where
  "lower_char c =
     (case map_of (zip ''ABCDEFGHIJKLMNOPQRSTUVWXYZ'' ''abcdefghijklmnopqrstuvwxyz'') c of
        Some l \<Rightarrow> l
      | None \<Rightarrow>
          (let n = (of_char c :: nat)
           in if 192 \<le> n \<and> n \<le> 222 \<and> n \<noteq> 215 then char_of (n + 32) else c))"

definition py_lower :: "string \<Rightarrow> string" where
  "py_lower s = map lower_char s"

text \<open>\<open>sep.join(xs)\<close>.\<close>

fun join :: "string \<Rightarrow> string list \<Rightarrow> string" where
  "join sep [] = []"
| "join sep [x] = x"
| "join sep (x # y # ys) = x @ sep @ join sep (y # ys)"

text \<open>
  \<open>repr\<close> of a string: single quotes, or double quotes when the string has a
  single quote and no double quote; the backslash, the delimiter, tab, newline
  and carriage return are escaped, any other non-printable code point is written
  \<open>\xNN\<close>.
\<close>

definition py_printable :: "char \<Rightarrow> bool" where
  "py_printable c =
     (let n = (of_char c :: nat) in (32 \<le> n \<and> n < 127) \<or> (161 \<le> n \<and> n \<noteq> 173))"

definition hex_digit :: "nat \<Rightarrow> char" where
  "hex_digit d = ''0123456789abcdef'' ! d"

definition repr_char :: "char \<Rightarrow> char \<Rightarrow> string" where
  "repr_char q c =
     (if c = CHR 0x5C then [CHR 0x5C, CHR 0x5C]
      else if c = q then [CHR 0x5C, q]
      else if c = CHR 0x09 then [CHR 0x5C, CHR ''t'']
      else if c = CHR 0x0A then [CHR 0x5C, CHR ''n'']
      else if c = CHR 0x0D then [CHR 0x5C, CHR ''r'']
      else if py_printable c then [c]
      else [CHR 0x5C, CHR ''x'', hex_digit (of_char c div 16), hex_digit (of_char c mod 16)])"

definition repr_str :: "string \<Rightarrow> string" where
  "repr_str s =
     (let q = (if CHR 0x27 \<in> set s \<and> CHR 0x22 \<notin> set s then CHR 0x22 else CHR 0x27)
      in q # concat (map (repr_char q) s) @ [q])"

text \<open>\<open>repr(x)\<close> and \<open>str(x)\<close>; they differ on strings only.\<close>

fun py_repr :: "json \<Rightarrow> string" where
  "py_repr JNull = ''None''"
| "py_repr (JBool b) = (if b then ''True'' else ''False'')"
| "py_repr (JInt n) = str_int n"
| "py_repr (JStr s) = repr_str s"
| "py_repr (JList xs) = ''['' @ join '', '' (map py_repr xs) @ '']''"
| "py_repr (JObj kvs) =
     ''{'' @ join '', '' (map (\<lambda>kv. repr_str (fst kv) @ '': '' @ py_repr (snd kv)) kvs) @ ''}''"

definition py_str :: "json \<Rightarrow> string" where
  "py_str x = (case x of JStr s \<Rightarrow> s | _ \<Rightarrow> py_repr x)"

subsection \<open>Python operations on JSON values\<close>

text \<open>Truth value, as \<open>s or ""\<close> tests it.\<close>

fun truthy :: "json \<Rightarrow> bool" where
  "truthy JNull = False"
| "truthy (JBool b) = b"
| "truthy (JInt n) = (n \<noteq> 0)"
| "truthy (JStr s) = (s \<noteq> [])"
| "truthy (JList xs) = (xs \<noteq> [])"
| "truthy (JObj kvs) = (kvs \<noteq> [])"

text \<open>\<open>bool\<close> is a subclass of \<open>int\<close>: in arithmetic and comparisons \<open>True\<close> is 1.\<close>

fun num_of :: "json \<Rightarrow> int option" where
  "num_of (JInt n) = Some n"
| "num_of (JBool b) = Some (if b then 1 else 0)"
| "num_of _ = None"

text \<open>\<open>x == y\<close>. Dicts are equal when they have the same keys with equal values.\<close>

fun py_eq :: "json \<Rightarrow> json \<Rightarrow> bool" where
  "py_eq JNull y = (y = JNull)"
| "py_eq (JBool b) y = (num_of y = Some (if b then 1 else 0))"
| "py_eq (JInt n) y = (num_of y = Some n)"
| "py_eq (JStr s) y = (y = JStr s)"
| "py_eq (JList xs) y = (case y of JList ys \<Rightarrow> list_all2 py_eq xs ys | _ \<Rightarrow> False)"
| "py_eq (JObj kvs) y =
     (case y of
        JObj kvs' \<Rightarrow>
          length kvs = length kvs'
          \<and> list_all (\<lambda>kv. case map_of kvs' (fst kv) of
                              None \<Rightarrow> False
                            | Some v' \<Rightarrow> py_eq (snd kv) v') kvs
      | _ \<Rightarrow> False)"

text \<open>
  \<open>x * y\<close>: numbers multiply, a string or a list is repeated by a number. The
  repetition raises when the count, or the length of the result, does not fit a
  machine index (63 bits); a count below 1 gives the empty sequence. Running out
  of memory on a shorter result is not modelled.
\<close>

definition py_repeat :: "int \<Rightarrow> 'a list \<Rightarrow> 'a list option" where
  "py_repeat n xs =
     (if n < - (2 ^ 63) \<or> 2 ^ 63 \<le> n then None
      else if n < 1 \<or> xs = [] then Some []
      else if 2 ^ 63 \<le> int (length xs) * n then None
      else Some (concat (replicate (nat n) xs)))"

fun py_mul :: "json \<Rightarrow> json \<Rightarrow> json option" where
  "py_mul (JStr s) y = (case num_of y of Some n \<Rightarrow> map_option JStr (py_repeat n s) | None \<Rightarrow> None)"
| "py_mul (JList xs) y = (case num_of y of Some n \<Rightarrow> map_option JList (py_repeat n xs) | None \<Rightarrow> None)"
| "py_mul x (JStr s) = (case num_of x of Some n \<Rightarrow> map_option JStr (py_repeat n s) | None \<Rightarrow> None)"
| "py_mul x (JList xs) = (case num_of x of Some n \<Rightarrow> map_option JList (py_repeat n xs) | None \<Rightarrow> None)"
| "py_mul x y = (case (num_of x, num_of y) of (Some a, Some b) \<Rightarrow> Some (JInt (a * b)) | _ \<Rightarrow> None)"

text \<open>\<open>d.get(k, default)\<close>: only a dict has the method.\<close>

definition py_get :: "json \<Rightarrow> string \<Rightarrow> json \<Rightarrow> json option" where
  "py_get d k dflt =
     (case d of
        JObj kvs \<Rightarrow> Some (case map_of kvs k of Some v \<Rightarrow> v | None \<Rightarrow> dflt)
      | _ \<Rightarrow> None)"

text \<open>\<open>d[k]\<close> with a string \<open>k\<close>: a missing key raises, and so does any other type.\<close>

definition py_getitem :: "json \<Rightarrow> string \<Rightarrow> json option" where
  "py_getitem d k = (case d of JObj kvs \<Rightarrow> map_of kvs k | _ \<Rightarrow> None)"

text \<open>\<open>len(x)\<close>, \<open>for v in x\<close> and \<open>x[i]\<close> with a number \<open>i\<close> in range.\<close>

fun py_len :: "json \<Rightarrow> nat option" where
  "py_len (JStr s) = Some (length s)"
| "py_len (JList xs) = Some (length xs)"
| "py_len (JObj kvs) = Some (length kvs)"
| "py_len _ = None"

fun py_iter :: "json \<Rightarrow> json list option" where
  "py_iter (JStr s) = Some (map (\<lambda>c. JStr [c]) s)"
| "py_iter (JList xs) = Some xs"
| "py_iter (JObj kvs) = Some (map (\<lambda>kv. JStr (fst kv)) kvs)"
| "py_iter _ = None"

fun py_index :: "json \<Rightarrow> nat \<Rightarrow> json option" where
  "py_index (JStr s) i = (if i < length s then Some (JStr [s ! i]) else None)"
| "py_index (JList xs) i = (if i < length xs then Some (xs ! i) else None)"
| "py_index _ i = None"

fun is_list :: "json \<Rightarrow> bool" where
  "is_list (JList xs) = True"
| "is_list _ = False"

text \<open>Lists and dicts cannot be hashed, so they cannot be looked up in a set or a dict.\<close>

fun py_hashable :: "json \<Rightarrow> bool" where
  "py_hashable (JList xs) = False"
| "py_hashable (JObj kvs) = False"
| "py_hashable _ = True"

text \<open>\<open>x in s\<close> for a set \<open>s\<close>, kept as the list of its elements.\<close>

definition py_in_set :: "json \<Rightarrow> json list \<Rightarrow> bool option" where
  "py_in_set x s = (if py_hashable x then Some (list_ex (\<lambda>e. py_eq e x) s) else None)"

text \<open>\<open>x in c\<close> for a dict, a list or a string \<open>c\<close>.\<close>

fun py_in :: "json \<Rightarrow> json \<Rightarrow> bool option" where
  "py_in x (JObj kvs) = (if py_hashable x then Some (list_ex (\<lambda>kv. py_eq (JStr (fst kv)) x) kvs) else None)"
| "py_in x (JList xs) = Some (list_ex (\<lambda>e. py_eq e x) xs)"
| "py_in x (JStr s) = (case x of JStr sub \<Rightarrow> Some (sublist sub s) | _ \<Rightarrow> None)"
| "py_in x _ = None"

text \<open>\<open>any(f(t) for t in ts)\<close> stops at the first true element.\<close>

fun py_any :: "('a \<Rightarrow> bool option) \<Rightarrow> 'a list \<Rightarrow> bool option" where
  "py_any f [] = Some False"
| "py_any f (t # ts) = (case f t of None \<Rightarrow> None | Some True \<Rightarrow> Some True | Some False \<Rightarrow> py_any f ts)"

subsection \<open>The helpers of validate.py\<close>

definition require :: "bool \<Rightarrow> string list \<Rightarrow> string \<Rightarrow> string list" where
  "require cond errors msg = (if cond then errors else errors @ [msg])"

fun is_int :: "json \<Rightarrow> bool" where
  "is_int (JInt n) = True"
| "is_int _ = False"

fun is_pos_int :: "json \<Rightarrow> bool" where
  "is_pos_int (JInt n) = (n > 0)"
| "is_pos_int _ = False"

text \<open>\<open>is_int(x) and lo <= x <= hi\<close>.\<close>

fun int_between :: "int \<Rightarrow> int \<Rightarrow> json \<Rightarrow> bool" where
  "int_between lo hi (JInt n) = (lo \<le> n \<and> n \<le> hi)"
| "int_between lo hi _ = False"

text \<open>\<open>norm(s) = (s or "").strip()\<close>: a true value that is not a string has no \<open>strip\<close>.\<close>

definition norm :: "json \<Rightarrow> string option" where
  "norm s = (if truthy s then (case s of JStr t \<Rightarrow> Some (py_strip t) | _ \<Rightarrow> None) else Some [])"

definition REQ_ROOT_KEYS :: "string list" where
  "REQ_ROOT_KEYS = [''id'', ''stem'', ''table'', ''graph'', ''equation_template'', ''tokens'',
     ''answers'', ''explanation'']"

definition MODES :: "(string \<times> string \<times> string \<times> string) list" where
  "MODES = [(''w'', ''weight'', ''kg'', ''kg''), (''v'', ''volume'', ''L'', ''L''),
     (''n'', ''items'', ''pcs'', ''pc'')]"

subsection \<open>validate_item\<close>

text \<open>1) Root keys: \<open>for k in REQ_ROOT_KEYS: require(k in item, errs, f"missing key: {k}")\<close>.\<close>

fun check_root_keys :: "json \<Rightarrow> string list \<Rightarrow> string list \<Rightarrow> string list option" where
  "check_root_keys item [] errs = Some errs"
| "check_root_keys item (k # ks) errs =
     do {
       present \<leftarrow> py_in (JStr k) item;
       check_root_keys item ks (require present errs (''missing key: '' @ k))
     }"

text \<open>The local variables of section 2 that the later sections read.\<close>

record ctx_vars =
  ctx :: json
  x_var :: string
  x_name :: string
  x_unit :: string
  x_ulab :: string
  slope_m :: json

text \<open>2) Context and prompt text.\<close>

definition check_context :: "json \<Rightarrow> string list \<Rightarrow> (ctx_vars \<times> string list) option" where
  "check_context item errs =
     do {
       stem \<leftarrow> py_getitem item ''stem'';
       ctx' \<leftarrow> py_get stem ''context'' (JObj []);
       y_var \<leftarrow> py_get ctx' ''y_var'' (JStr []) \<bind> norm;
       y_name \<leftarrow> py_get ctx' ''y_name'' (JStr []) \<bind> norm;
       y_unit \<leftarrow> py_get ctx' ''y_unit'' (JStr []) \<bind> norm;
       x_var' \<leftarrow> py_get ctx' ''x_var'' (JStr []) \<bind> norm;
       x_name' \<leftarrow> py_get ctx' ''x_name'' (JStr []) \<bind> norm;
       x_unit' \<leftarrow> py_get ctx' ''x_unit'' (JStr []) \<bind> norm;
       x_ulab' \<leftarrow> py_get ctx' ''x_unit_label'' (JStr []) \<bind> norm;
       item_nm \<leftarrow> py_get ctx' ''item_name'' (JStr []) \<bind> norm;
       slope_m' \<leftarrow> py_get ctx' ''slope_m'' JNull;
       let errs = require (y_var = ''p'') errs (''y_var must be '' @ quoted ''p'');
           errs = require (py_lower y_name = ''price'') errs (''y_name must be '' @ quoted ''price'');
           errs = require (y_unit = ''$'') errs (''y_unit must be '' @ quoted ''$'');
           errs = require (x_var' \<in> set (map fst MODES)) errs
                    (''x_var must be one of '' @ py_repr (JList (map (JStr \<circ> fst) MODES)));
           errs = (case map_of MODES x_var' of
                     Some (exp_name, exp_unit, exp_lab) \<Rightarrow>
                       let errs = require (py_lower x_name' = exp_name) errs
                                    (''x_name must be '' @ quoted exp_name);
                           errs = require (x_unit' = exp_unit) errs
                                    (''x_unit must be '' @ quoted exp_unit);
                           errs = require (x_ulab' = exp_lab) errs
                                    (''x_unit_label must be '' @ quoted exp_lab)
                       in errs
                   | None \<Rightarrow> errs);
           errs = require (item_nm \<noteq> []) errs ''item_name empty'';
           errs = require (int_between 1 20 slope_m') errs ''slope_m must be int in [1..20]''
       in do {
         prompt_text \<leftarrow> py_get stem ''prompt_text'' (JStr []) \<bind> norm;
         let errs = require (sublist ''p'' prompt_text \<or> sublist ''price'' (py_lower prompt_text))
                      errs ''prompt must reference price/p'';
             errs = require (sublist x_var' prompt_text \<or> sublist x_name' (py_lower prompt_text))
                      errs ''prompt must reference x_var/x_name'';
             errs = require (sublist ''$'' prompt_text) errs
                      (''prompt should mention currency '' @ quoted ''$'');
             errs = require (sublist (py_lower item_nm) (py_lower prompt_text)) errs
                      ''prompt should mention item_name''
         in Some (\<lparr>ctx = ctx', x_var = x_var', x_name = x_name', x_unit = x_unit',
                    x_ulab = x_ulab', slope_m = slope_m'\<rparr>, errs)
       }
     }"

text \<open>
  3) Table. The six values of the table are read first, then the six rules are
  checked; the product \<open>slope_m * amt_val\<close> is computed only when \<open>tot_val\<close> is a
  positive integer, and raises when the two cannot be multiplied.
\<close>

definition table_fields :: "json \<Rightarrow> (json \<times> string \<times> json \<times> string \<times> json \<times> string) option"
  where
  "table_fields item =
     do {
       table \<leftarrow> py_getitem item ''table'';
       up_val \<leftarrow> py_get table ''unit_price'' (JObj []) \<bind> (\<lambda>d. py_get d ''value'' JNull);
       up_disp \<leftarrow> py_get table ''unit_price'' (JObj []) \<bind> (\<lambda>d. py_get d ''display'' (JStr []))
                    \<bind> norm;
       amt_val \<leftarrow> py_get table ''amount'' (JObj []) \<bind> (\<lambda>d. py_get d ''value'' JNull);
       amt_disp \<leftarrow> py_get table ''amount'' (JObj []) \<bind> (\<lambda>d. py_get d ''display'' (JStr []))
                     \<bind> norm;
       tot_val \<leftarrow> py_get table ''total'' (JObj []) \<bind> (\<lambda>d. py_get d ''value'' JNull);
       tot_disp \<leftarrow> py_get table ''total'' (JObj []) \<bind> (\<lambda>d. py_get d ''display'' (JStr []))
                     \<bind> norm;
       Some (up_val, up_disp, amt_val, amt_disp, tot_val, tot_disp)
     }"

definition check_table :: "json \<Rightarrow> ctx_vars \<Rightarrow> string list \<Rightarrow> string list option" where
  "check_table item cv errs =
     do {
       (up_val, up_disp, amt_val, amt_disp, tot_val, tot_disp) \<leftarrow> table_fields item;
       let errs = require (is_pos_int up_val \<and> py_eq up_val (slope_m cv)) errs
                    ''unit_price.value must equal slope_m'';
           errs = require (prefix ''$'' up_disp \<and> sublist (''/'' @ x_ulab cv) up_disp
                             \<and> sublist (py_str (slope_m cv)) up_disp) errs
                    (''unit_price.display must include '' @ quoted ''$'' @ '', slope_m, and ''
                       @ quoted ''/{x_unit_label}'');
           errs = require (is_pos_int amt_val \<and> int_between 1 10 amt_val) errs
                    ''amount.value must be 1..10'';
           errs = require (suffix ('' '' @ x_unit cv) amt_disp \<and> sublist (py_str amt_val) amt_disp)
                    errs (''amount.display must be '' @ quoted ''<amount> {x_unit}'')
       in do {
         tot_ok \<leftarrow> (if is_pos_int tot_val
                     then do { prod \<leftarrow> py_mul (slope_m cv) amt_val; Some (py_eq tot_val prod) }
                     else Some False);
         let errs = require tot_ok errs ''total.value must equal slope_m * amount.value'';
             errs = require (prefix ''$'' tot_disp \<and> sublist (py_str tot_val) tot_disp) errs
                      (''total.display must start with '' @ quoted ''$''
                         @ '' and include total value'')
         in Some errs
       }
     }"

text \<open>
  4) Graph. \<open>inc_pos(seq)\<close> is
  \<open>all(is_pos_int(seq[i]) and (i==0 or seq[i]>seq[i-1]) for i in range(len(seq)))\<close>;
  the comparison is reached with a positive integer on its left only, and raises
  when its right operand is not a number.
\<close>

fun inc_pos_from :: "json \<Rightarrow> nat list \<Rightarrow> bool option" where
  "inc_pos_from seq [] = Some True"
| "inc_pos_from seq (i # is) =
     do {
       si \<leftarrow> py_index seq i;
       (case si of
          JInt n \<Rightarrow>
            if n > 0
            then do {
              c \<leftarrow> (if i = 0 then Some True
                     else do {
                       sp \<leftarrow> py_index seq (i - 1);
                       (case num_of sp of Some m \<Rightarrow> Some (n > m) | None \<Rightarrow> None)
                     });
              if c then inc_pos_from seq is else Some False
            }
            else Some False
        | _ \<Rightarrow> Some False)
     }"

definition inc_pos :: "json \<Rightarrow> bool option" where
  "inc_pos seq = do { n \<leftarrow> py_len seq; inc_pos_from seq [0..<n] }"

text \<open>\<open>for xi, yi in zip(x_ticks, y_ticks): require(yi == slope_m * xi, ...)\<close>.\<close>

fun ticks_loop :: "json \<Rightarrow> (json \<times> json) list \<Rightarrow> string list \<Rightarrow> string list option" where
  "ticks_loop m [] errs = Some errs"
| "ticks_loop m ((xi, yi) # rest) errs =
     do {
       prod \<leftarrow> py_mul m xi;
       ticks_loop m rest (require (py_eq yi prod) errs ''y_ticks must equal slope_m * x_ticks'')
     }"

text \<open>
  \<open>pt_ok(p)\<close> is \<open>isinstance(p,list) and len(p)==2 and all(is_int(v) for v in p)
  and p[1]==slope_m*p[0]\<close>.
\<close>

fun pt_ok :: "json \<Rightarrow> json \<Rightarrow> bool option" where
  "pt_ok m (JList [a, b]) =
     (if is_int a \<and> is_int b
      then do { prod \<leftarrow> py_mul m a; Some (py_eq b prod) }
      else Some False)"
| "pt_ok m _ = Some False"

definition len_is :: "json \<Rightarrow> nat \<Rightarrow> bool option" where
  "len_is x n = do { l \<leftarrow> py_len x; Some (l = n) }"

text \<open>
  The block under \<open>if len(x_ticks)==5 and len(y_ticks)==5\<close>, and the block under
  \<open>if len(line_pts)==2\<close>; \<open>len\<close> raises on a value that has no length.
  \<open>p1, p2 = line_pts\<close> unpacks the two elements, and
  \<open>pt_ok(p1) and pt_ok(p2) and p1!=p2\<close> stops at the first false operand.
\<close>

definition check_ticks :: "json \<Rightarrow> json \<Rightarrow> json \<Rightarrow> string list \<Rightarrow> string list option" where
  "check_ticks m x_ticks y_ticks errs =
     do {
       x5 \<leftarrow> len_is x_ticks 5;
       both5 \<leftarrow> (if x5 then len_is y_ticks 5 else Some False);
       if both5
       then do {
         ix \<leftarrow> inc_pos x_ticks;
         iy \<leftarrow> inc_pos y_ticks;
         xs \<leftarrow> py_iter x_ticks;
         ys \<leftarrow> py_iter y_ticks;
         ticks_loop m (zip xs ys)
           (require iy
              (require ix errs ''x_ticks must be positive increasing integers'')
              ''y_ticks must be positive increasing integers'')
       }
       else Some errs
     }"

fun line_points_ok :: "json \<Rightarrow> json list \<Rightarrow> bool option" where
  "line_points_ok m [p1, p2] =
     do {
       ok1 \<leftarrow> pt_ok m p1;
       if ok1 then do { ok2 \<leftarrow> pt_ok m p2; Some (ok2 \<and> \<not> py_eq p1 p2) } else Some False
     }"
| "line_points_ok m _ = None"

definition check_line_points :: "json \<Rightarrow> json \<Rightarrow> string list \<Rightarrow> string list option" where
  "check_line_points m line_pts errs =
     do {
       l2 \<leftarrow> len_is line_pts 2;
       if l2
       then do {
         pts \<leftarrow> py_iter line_pts;
         ok \<leftarrow> line_points_ok m pts;
         Some (require ok errs ''line_points must lie on p=m*x and be distinct'')
       }
       else Some errs
     }"

definition check_graph :: "json \<Rightarrow> ctx_vars \<Rightarrow> string list \<Rightarrow> string list option" where
  "check_graph item cv errs =
     do {
       graph \<leftarrow> py_getitem item ''graph'';
       xaxis \<leftarrow> py_get graph ''x_axis'' (JObj []);
       yaxis \<leftarrow> py_get graph ''y_axis'' (JObj []);
       x_ticks \<leftarrow> py_get xaxis ''ticks'' (JList []);
       y_ticks \<leftarrow> py_get yaxis ''ticks'' (JList []);
       x_label \<leftarrow> py_get xaxis ''label'' (JStr []) \<bind> norm;
       y_label \<leftarrow> py_get yaxis ''label'' (JStr []) \<bind> norm;
       errs \<leftarrow> check_ticks (slope_m cv) x_ticks y_ticks
                 (require (is_list y_ticks \<and> py_len y_ticks = Some 5)
                    (require (is_list x_ticks \<and> py_len x_ticks = Some 5)
                       (require (py_lower y_label = ''price ($)'')
                          (require (py_lower x_label
                                      = py_lower (x_name cv @ '' ('' @ x_unit cv @ '')''))
                             errs (''x_axis.label must match '' @ quoted ''{x_name} ({x_unit})''))
                          (''y_axis.label must be '' @ quoted ''price ($)''))
                       ''x_ticks must be length 5'')
                    ''y_ticks must be length 5'');
       line_pts \<leftarrow> py_get graph ''line_points'' (JList []);
       check_line_points (slope_m cv) line_pts
         (require (is_list line_pts \<and> py_len line_pts = Some 2) errs
            ''line_points must have exactly 2 points'')
     }"

text \<open>
  5) Equation template and tokens. \<open>t.get(..)\<close> raises on a token that is not a
  dict, and the look-up of a label in \<open>seen_labels\<close> raises on a label that cannot
  be hashed.
\<close>

definition token_is :: "string \<Rightarrow> json \<Rightarrow> json \<Rightarrow> bool option" where
  "token_is ty lbl t =
     do {
       ty' \<leftarrow> py_get t ''type'' JNull;
       if py_eq ty' (JStr ty)
       then do { lbl' \<leftarrow> py_get t ''label'' JNull; Some (py_eq lbl' lbl) }
       else Some False
     }"

definition token_is_slope :: "json \<Rightarrow> json \<Rightarrow> bool option" where
  "token_is_slope m t =
     do {
       c \<leftarrow> token_is ''const'' (JStr (py_str m)) t;
       if c then do { v \<leftarrow> py_get t ''value'' JNull; Some (py_eq v m) } else Some False
     }"

fun tokens_loop :: "json \<Rightarrow> json list \<Rightarrow> json list \<Rightarrow> string list \<Rightarrow> string list option" where
  "tokens_loop m [] seen_labels errs = Some errs"
| "tokens_loop m (t # ts) seen_labels errs =
     do {
       lbl \<leftarrow> py_get t ''label'' (JStr []);
       dup \<leftarrow> py_in_set lbl seen_labels;
       let errs = require (\<not> dup) errs ''duplicate token label not allowed'';
           seen_labels = seen_labels @ [lbl]
       in do {
         ty \<leftarrow> py_get t ''type'' JNull;
         distractor \<leftarrow> (if py_eq ty (JStr ''const'')
                         then do { l \<leftarrow> py_get t ''label'' JNull;
                                   Some (\<not> py_eq l (JStr (py_str m))) }
                         else Some False);
         if distractor
         then do {
           v \<leftarrow> py_get t ''value'' JNull;
           tokens_loop m ts seen_labels
             (require (int_between 1 20 v \<and> \<not> py_eq v m) errs
                ''distractor const must be 1..20 and != slope_m'')
         }
         else tokens_loop m ts seen_labels errs
       }
     }"

definition check_tokens :: "json \<Rightarrow> ctx_vars \<Rightarrow> string list \<Rightarrow> (string \<times> json \<times> string list) option"
  where
  "check_tokens item cv errs =
     do {
       eq_tmpl \<leftarrow> py_get item ''equation_template'' (JStr []) \<bind> norm;
       let errs = require (eq_tmpl = ''_ = _ * _'' \<or> eq_tmpl = ''_ * _ = _'') errs
                    (''equation_template must be '' @ quoted ''_ = _ * _'' @ '' or ''
                       @ quoted ''_ * _ = _'')
       in do {
         tokens \<leftarrow> py_get item ''tokens'' (JList []);
         let errs = require (is_list tokens \<and> (case py_len tokens of
                                                  Some n \<Rightarrow> 3 \<le> n \<and> n \<le> 5 | None \<Rightarrow> False))
                      errs ''tokens must have 3..5 entries''
         in do {
           errs \<leftarrow> (case tokens of
                      JList ts \<Rightarrow>
                        do {
                          has_p \<leftarrow> py_any (token_is ''var'' (JStr ''p'')) ts;
                          has_x \<leftarrow> py_any (token_is ''var'' (JStr (x_var cv))) ts;
                          has_m \<leftarrow> py_any (token_is_slope (slope_m cv)) ts;
                          tokens_loop (slope_m cv) ts []
                            (require (has_p \<and> has_x \<and> has_m) errs
                               (''tokens must include var '' @ quoted ''p''
                                  @ '', var x_var, and const slope_m''))
                        }
                    | _ \<Rightarrow> Some errs);
           Some (eq_tmpl, tokens, errs)
         }
       }
     }"

text \<open>6) Answers.\<close>

fun token_labels_of :: "json list \<Rightarrow> json list \<Rightarrow> json list option" where
  "token_labels_of [] acc = Some acc"
| "token_labels_of (t # ts) acc =
     do {
       lbl \<leftarrow> py_get t ''label'' JNull;
       if py_hashable lbl then token_labels_of ts (acc @ [lbl]) else None
     }"

fun syms_loop :: "json list \<Rightarrow> json list \<Rightarrow> string list \<Rightarrow> string list option" where
  "syms_loop token_labels [] errs = Some errs"
| "syms_loop token_labels (symb # syms) errs =
     do {
       known \<leftarrow> py_in_set symb token_labels;
       syms_loop token_labels syms
         (require known errs (''valid_fills symbol '' @ quoted (py_str symb) @ '' not in tokens''))
     }"

fun fills_loop :: "json list \<Rightarrow> json list \<Rightarrow> string list \<Rightarrow> string list option" where
  "fills_loop token_labels [] errs = Some errs"
| "fills_loop token_labels (f # fs) errs =
     (let errs = require (is_list f \<and> py_len f = Some 3) errs
                   ''each valid_fills entry must have 3 symbols''
      in do {
        syms \<leftarrow> py_iter f;
        errs \<leftarrow> syms_loop token_labels syms errs;
        fills_loop token_labels fs errs
      })"

fun expect_loop :: "json \<Rightarrow> string list list \<Rightarrow> string list \<Rightarrow> string list option" where
  "expect_loop fills [] errs = Some errs"
| "expect_loop fills (ex # exs) errs =
     do {
       found \<leftarrow> py_in (JList (map JStr ex)) fills;
       expect_loop fills exs
         (require found errs (''valid_fills must include '' @ py_repr (JList (map JStr ex))))
     }"

definition check_answers ::
  "json \<Rightarrow> ctx_vars \<Rightarrow> string \<Rightarrow> json \<Rightarrow> string list \<Rightarrow> string list option" where
  "check_answers item cv eq_tmpl tokens errs =
     do {
       answers \<leftarrow> py_get item ''answers'' (JObj []);
       fills \<leftarrow> py_get answers ''valid_fills'' (JList []);
       canon \<leftarrow> py_get answers ''canonical_str'' (JStr []) \<bind> norm;
       let errs = require (is_list fills \<and> (case py_len fills of
                                                Some n \<Rightarrow> 2 \<le> n | None \<Rightarrow> False)) errs
                    ''answers.valid_fills must include both orientations''
       in do {
         ts \<leftarrow> py_iter tokens;
         token_labels \<leftarrow> token_labels_of ts [];
         fs \<leftarrow> py_iter fills;
         errs \<leftarrow> fills_loop token_labels fs errs;
         let m = py_str (slope_m cv);
             expect_main =
               (if eq_tmpl = ''_ = _ * _''
                then [[''p'', m, x_var cv], [''p'', x_var cv, m]]
                else [[m, x_var cv, ''p''], [x_var cv, m, ''p'']])
         in do {
           errs \<leftarrow> expect_loop fills expect_main errs;
           let expect_canon_a = ''p='' @ m @ ''*'' @ x_var cv;
               expect_canon_b = m @ ''*'' @ x_var cv @ ''=p''
           in Some (require (canon = expect_canon_a \<or> canon = expect_canon_b) errs
                      (''answers.canonical_str must be '' @ quoted ''p=m*x'' @ '' or ''
                         @ quoted ''m*x=p''))
         }
       }
     }"

text \<open>
  7) Explanation. The multiplication sign of \<open>"p={slope_m}\<times>{x_var}"\<close> is code point
  215. The last operand of \<open>rate_ok\<close> adds \<open>"per "\<close> to the raw \<open>x_unit_label\<close>,
  and raises when that is not a string.
\<close>

definition check_explanation :: "json \<Rightarrow> ctx_vars \<Rightarrow> string list \<Rightarrow> string list option" where
  "check_explanation item cv errs =
     do {
       expl \<leftarrow> py_get item ''explanation'' (JObj []);
       eq_str \<leftarrow> py_get expl ''equation_str'' (JStr []) \<bind> norm;
       e_txt \<leftarrow> py_get expl ''text'' (JStr []) \<bind> norm;
       let errs = require (eq_str = ''p='' @ py_str (slope_m cv) @ [CHR 0xD7] @ x_var cv) errs
                    (''explanation.equation_str must be '' @ quoted
                       (''p=m'' @ [CHR 0xD7] @ ''x_var''));
           errs = require (sublist ''p'' e_txt \<and> sublist (x_var cv) e_txt) errs
                    (''explanation.text must mention '' @ quoted ''p'' @ '' and x_var'')
       in do {
         rate_ok \<leftarrow> (if sublist ''$'' e_txt \<or> sublist (py_str (slope_m cv)) e_txt then Some True
                      else do {
                        lab \<leftarrow> py_get (ctx cv) ''x_unit_label'' (JStr []);
                        (case lab of
                           JStr s \<Rightarrow> Some (sublist (''per '' @ s) e_txt)
                         | _ \<Rightarrow> None)
                      });
         Some (require rate_ok errs
                 ''explanation.text should indicate price rate ($ or number)'')
       }
     }"

definition validate_item :: "json \<Rightarrow> (bool \<times> string list) option" where
  "validate_item item =
     do {
       errs \<leftarrow> check_root_keys item REQ_ROOT_KEYS [];
       if errs \<noteq> [] then Some (False, errs)
       else do {
         (cv, errs) \<leftarrow> check_context item errs;
         errs \<leftarrow> check_table item cv errs;
         errs \<leftarrow> check_graph item cv errs;
         (eq_tmpl, tokens, errs) \<leftarrow> check_tokens item cv errs;
         errs \<leftarrow> check_answers item cv eq_tmpl tokens errs;
         errs \<leftarrow> check_explanation item cv errs;
         Some (length errs = 0, errs)
       }
     }"

subsection \<open>dedupe_items\<close>

text \<open>
  \<open>int(x)\<close>: an integer as it is, a boolean as 0 or 1, a string parsed as a
  decimal literal; anything else raises. The literal is an optional sign and
  digits with single underscores between them, with whitespace around it. The
  whitespace that \<open>int\<close> skips is narrower than what \<open>strip\<close> removes: the four
  separators \<open>U+001C\<close> to \<open>U+001F\<close> are not part of it. A literal of more than
  4300 digits raises (the default of \<open>sys.int_max_str_digits\<close>).
\<close>

definition digit_val :: "char \<Rightarrow> nat option" where
  "digit_val c = map_of (zip ''0123456789'' [0 ..< 10]) c"

fun parse_digits :: "string \<Rightarrow> nat \<Rightarrow> nat option" where
  "parse_digits [] acc = Some acc"
| "parse_digits (c # cs) acc =
     (if c = CHR ''_''
      then (case cs of
              [] \<Rightarrow> None
            | c' # cs' \<Rightarrow>
                (case digit_val c' of None \<Rightarrow> None | Some d \<Rightarrow> parse_digits cs' (acc * 10 + d)))
      else (case digit_val c of None \<Rightarrow> None | Some d \<Rightarrow> parse_digits cs (acc * 10 + d)))"

definition int_max_str_digits :: nat where
  "int_max_str_digits = 4300"

definition parse_nat :: "string \<Rightarrow> nat option" where
  "parse_nat s =
     (case s of
        [] \<Rightarrow> None
      | c # cs \<Rightarrow>
          (case digit_val c of
             None \<Rightarrow> None
           | Some d \<Rightarrow>
               (case parse_digits cs d of
                  None \<Rightarrow> None
                | Some n \<Rightarrow>
                    if length (filter (\<lambda>c. c \<noteq> CHR ''_'') s) \<le> int_max_str_digits
                    then Some n else None)))"

definition py_int_space :: "char \<Rightarrow> bool" where
  "py_int_space c =
     (c \<in> set [CHR 0x09, CHR 0x0A, CHR 0x0B, CHR 0x0C, CHR 0x0D, CHR 0x20, CHR 0x85, CHR 0xA0])"

definition int_of_str :: "string \<Rightarrow> int option" where
  "int_of_str s =
     (case rev (dropWhile py_int_space (rev (dropWhile py_int_space s))) of
        [] \<Rightarrow> None
      | c # cs \<Rightarrow>
          if c = CHR ''-'' then map_option (\<lambda>n. - int n) (parse_nat cs)
          else if c = CHR ''+'' then map_option int (parse_nat cs)
          else map_option int (parse_nat (c # cs)))"

fun py_int :: "json \<Rightarrow> int option" where
  "py_int (JInt n) = Some n"
| "py_int (JBool b) = Some (if b then 1 else 0)"
| "py_int (JStr s) = int_of_str s"
| "py_int _ = None"

text \<open>
  The body of the \<open>try\<close>: the key \<open>(c["item_name"].lower().strip(), c["x_unit"],
  int(c["slope_m"]))\<close>, or \<open>None\<close> when any step raises, which \<open>except Exception\<close>
  catches.
\<close>

definition dedupe_key :: "json \<Rightarrow> (string \<times> json \<times> int) option" where
  "dedupe_key it =
     do {
       stem \<leftarrow> py_getitem it ''stem'';
       c \<leftarrow> py_getitem stem ''context'';
       nm \<leftarrow> py_getitem c ''item_name'';
       name \<leftarrow> (case nm of JStr s \<Rightarrow> Some (py_strip (py_lower s)) | _ \<Rightarrow> None);
       unit \<leftarrow> py_getitem c ''x_unit'';
       m \<leftarrow> py_getitem c ''slope_m'' \<bind> py_int;
       Some (name, unit, m)
     }"

text \<open>
  \<open>key in seen\<close> hashes the tuple, which raises outside the \<open>try\<close> when the
  \<open>x_unit\<close> in it is a list or a dict; tuples are equal when their components are.
\<close>

definition key_eq :: "(string \<times> json \<times> int) \<Rightarrow> (string \<times> json \<times> int) \<Rightarrow> bool" where
  "key_eq k k' = (fst k = fst k' \<and> py_eq (fst (snd k)) (fst (snd k')) \<and> snd (snd k) = snd (snd k'))"

definition key_in_seen :: "(string \<times> json \<times> int) \<Rightarrow> (string \<times> json \<times> int) list \<Rightarrow> bool option"
  where
  "key_in_seen key seen =
     (if py_hashable (fst (snd key)) then Some (list_ex (\<lambda>k. key_eq k key) seen) else None)"

fun dedupe_loop ::
  "json list \<Rightarrow> (string \<times> json \<times> int) list \<Rightarrow> json list \<Rightarrow> nat \<Rightarrow> (json list \<times> nat) option"
  where
  "dedupe_loop [] seen kept dropped = Some (kept, dropped)"
| "dedupe_loop (it # items) seen kept dropped =
     (case dedupe_key it of
        None \<Rightarrow> dedupe_loop items seen (kept @ [it]) dropped
      | Some key \<Rightarrow>
          do {
            dup \<leftarrow> key_in_seen key seen;
            if dup then dedupe_loop items seen kept (dropped + 1)
            else dedupe_loop items (seen @ [key]) (kept @ [it]) dropped
          })"

definition dedupe_items :: "json list \<Rightarrow> (json list \<times> nat) option" where
  "dedupe_items items = dedupe_loop items [] [] 0"

subsection \<open>main\<close>

text \<open>
  The part of \<open>main\<close> between reading the input array and writing the output:
  de-duplicate, validate every remaining item, and sort the items into those that
  passed and the identifiers and reasons of those that failed. The passed list is
  what is written as the output array; writing it and reading it back is taken to
  return the same list.
\<close>

fun validate_loop ::
  "json list \<Rightarrow> json list \<Rightarrow> (string \<times> string list) list
     \<Rightarrow> (json list \<times> (string \<times> string list) list) option" where
  "validate_loop [] passed failed = Some (passed, failed)"
| "validate_loop (it # items) passed failed =
     do {
       (ok, reasons) \<leftarrow> validate_item it;
       if ok then validate_loop items (passed @ [it]) failed
       else do {
         ident \<leftarrow> py_get it ''id'' (JStr ''<no-id>'');
         validate_loop items passed (failed @ [(py_str ident, reasons)])
       }
     }"

record report =
  passed_items :: "json list"
  failed_items :: "(string \<times> string list) list"
  dropped_dupes :: nat

definition run_validator :: "json list \<Rightarrow> report option" where
  "run_validator items =
     do {
       (items', dropped) \<leftarrow> dedupe_items items;
       (passed, failed) \<leftarrow> validate_loop items' [] [];
       Some \<lparr>passed_items = passed, failed_items = failed, dropped_dupes = dropped\<rparr>
     }"


subsection \<open>The de-duplication pass in the words of the specification\<close>

text \<open>
  Two items have the same canonical key when both keys can be extracted and are
  equal; an item is kept when no earlier item of the batch has the same key,
  which holds for every item whose key cannot be extracted.
\<close>

definition same_key :: "json \<Rightarrow> json \<Rightarrow> bool" where
  "same_key a b =
     (case (dedupe_key a, dedupe_key b) of (Some k, Some k') \<Rightarrow> key_eq k k' | _ \<Rightarrow> False)"

definition is_first :: "json list \<Rightarrow> json \<Rightarrow> bool" where
  "is_first earlier it = (\<not> list_ex (\<lambda>e. same_key e it) earlier)"

fun keep_first :: "json list \<Rightarrow> json list \<Rightarrow> json list" where
  "keep_first earlier [] = []"
| "keep_first earlier (it # items) =
     (if is_first earlier it then [it] else []) @ keep_first (earlier @ [it]) items"

text \<open>Every key that can be extracted has an \<open>x_unit\<close> that can be hashed.\<close>

definition keys_hashable :: "json list \<Rightarrow> bool" where
  "keys_hashable items =
     list_all (\<lambda>it. case dedupe_key it of None \<Rightarrow> True | Some k \<Rightarrow> py_hashable (fst (snd k))) items"

text \<open>Every item of a list is the first of its key among the items before it.\<close>

fun all_first :: "json list \<Rightarrow> json list \<Rightarrow> bool" where
  "all_first earlier [] = True"
| "all_first earlier (it # items) = (is_first earlier it \<and> all_first (earlier @ [it]) items)"

text \<open>
  On values that can be hashed, \<open>==\<close> is equality up to reading a boolean as a
  number; the keys of a list of items are those that can be extracted.
\<close>

fun hnorm :: "json \<Rightarrow> json" where
  "hnorm (JBool b) = JInt (if b then 1 else 0)"
| "hnorm x = x"

definition nkey :: "(string \<times> json \<times> int) \<Rightarrow> (string \<times> json \<times> int)" where
  "nkey k = (fst k, hnorm (fst (snd k)), snd (snd k))"

definition item_keys :: "json list \<Rightarrow> (string \<times> json \<times> int) set" where
  "item_keys items = {k. \<exists>e \<in> set items. dedupe_key e = Some k}"

subsection \<open>Table violations\<close>

text \<open>
  What the table rules read, written for one field at a time:
  \<open>table.get(row, {}).get(field, default)\<close> and \<open>ctx.get(field, default)\<close>. A
  display, and a unit of the context, is read through \<open>norm\<close>: it is the string
  with the whitespace around it stripped, and the empty string when the field is
  absent, \<open>null\<close> or another false value.
\<close>

definition table_cell :: "json \<Rightarrow> string \<Rightarrow> string \<Rightarrow> json \<Rightarrow> json option" where
  "table_cell item row field dflt =
     do {
       table \<leftarrow> py_getitem item ''table'';
       cell \<leftarrow> py_get table row (JObj []);
       py_get cell field dflt
     }"

definition table_display :: "json \<Rightarrow> string \<Rightarrow> string option" where
  "table_display item row = table_cell item row ''display'' (JStr []) \<bind> norm"

definition context_field :: "json \<Rightarrow> string \<Rightarrow> json \<Rightarrow> json option" where
  "context_field item field dflt =
     do {
       stem \<leftarrow> py_getitem item ''stem'';
       c \<leftarrow> py_get stem ''context'' (JObj []);
       py_get c field dflt
     }"

definition context_text :: "json \<Rightarrow> string \<Rightarrow> string option" where
  "context_text item field = context_field item field (JStr []) \<bind> norm"

text \<open>The messages of the six table rules, and the table violations in a list of errors.\<close>

definition table_msgs :: "string list" where
  "table_msgs =
     [''unit_price.value must equal slope_m'',
      ''unit_price.display must include '' @ quoted ''$'' @ '', slope_m, and ''
         @ quoted ''/{x_unit_label}'',
      ''amount.value must be 1..10'',
      ''amount.display must be '' @ quoted ''<amount> {x_unit}'',
      ''total.value must equal slope_m * amount.value'',
      ''total.display must start with '' @ quoted ''$'' @ '' and include total value'']"

definition table_part :: "string list \<Rightarrow> string list" where
  "table_part errs = filter (\<lambda>m. m \<in> set table_msgs) errs"

subsection \<open>Example items\<close>

text \<open>An item that passes, with the item name, the slope and the table as parameters.\<close>

definition example_table :: "json \<Rightarrow> json \<Rightarrow> json \<Rightarrow> string \<Rightarrow> json" where
  "example_table up_disp amount tot_val tot_disp =
     JObj [(''unit_price'', JObj [(''value'', JInt 8), (''display'', up_disp)]),
           (''amount'', amount),
           (''total'', JObj [(''value'', tot_val), (''display'', JStr tot_disp)])]"

definition example_fields_with :: "string \<Rightarrow> json \<Rightarrow> json \<Rightarrow> (string \<times> json) list" where
  "example_fields_with name slope table =
     [(''stem'', JObj [(''prompt_text'', JStr ''price p, weight w: bananas cost $8 per kg''),
         (''context'', JObj [(''y_var'', JStr ''p''), (''y_name'', JStr ''price''),
             (''y_unit'', JStr ''$''), (''x_var'', JStr ''w''), (''x_name'', JStr ''weight''),
             (''x_unit'', JStr ''kg''), (''x_unit_label'', JStr ''kg''),
             (''item_name'', JStr name), (''slope_m'', slope)])]),
      (''table'', table),
      (''graph'', JObj [
         (''x_axis'', JObj [(''label'', JStr ''weight (kg)''),
             (''ticks'', JList [JInt 1, JInt 2, JInt 3, JInt 4, JInt 5])]),
         (''y_axis'', JObj [(''label'', JStr ''price ($)''),
             (''ticks'', JList [JInt 8, JInt 16, JInt 24, JInt 32, JInt 40])]),
         (''line_points'', JList [JList [JInt 0, JInt 0], JList [JInt 1, JInt 8]])]),
      (''equation_template'', JStr ''_ = _ * _''),
      (''tokens'', JList [
         JObj [(''type'', JStr ''const''), (''label'', JStr ''8''), (''value'', JInt 8)],
         JObj [(''type'', JStr ''var''), (''label'', JStr ''p'')],
         JObj [(''type'', JStr ''var''), (''label'', JStr ''w'')]]),
      (''answers'', JObj [
         (''valid_fills'', JList [JList [JStr ''p'', JStr ''8'', JStr ''w''],
                                  JList [JStr ''p'', JStr ''w'', JStr ''8'']]),
         (''canonical_str'', JStr ''p=8*w'')]),
      (''explanation'', JObj [(''equation_str'', JStr (''p=8'' @ [CHR 0xD7] @ ''w'')),
         (''text'', JStr ''p is w times $8'')])]"

definition example_fields :: "string \<Rightarrow> json \<Rightarrow> (string \<times> json) list" where
  "example_fields name table = example_fields_with name (JInt 8) table"

definition example_amount :: json where
  "example_amount = JObj [(''value'', JInt 2), (''display'', JStr ''2 kg'')]"

definition example_item :: json where
  "example_item =
     JObj ((''id'', JStr ''lin-001'')
           # example_fields ''Bananas''
               (example_table (JStr ''$8.00/kg'') example_amount (JInt 16) ''$16.00''))"

text \<open>A second copy of it, the name in small letters with a space before it.\<close>

definition example_item_lower :: json where
  "example_item_lower =
     JObj ((''id'', JStr ''lin-002'')
           # example_fields '' bananas''
               (example_table (JStr ''$8.00/kg'') example_amount (JInt 16) ''$16.00''))"

text \<open>The passing item with other table displays.\<close>

definition example_item_total_15 :: json where
  "example_item_total_15 =
     JObj ((''id'', JStr ''lin-001'')
           # example_fields ''Bananas''
               (example_table (JStr ''$8.00/kg'') example_amount (JInt 16) ''$15.00''))"

definition example_item_usd :: json where
  "example_item_usd =
     JObj ((''id'', JStr ''lin-001'')
           # example_fields ''Bananas''
               (example_table (JStr ''USD $8/kg'') example_amount (JInt 16) ''$16.00''))"

text \<open>The passing item with whitespace around its three displays.\<close>

definition example_item_padded :: json where
  "example_item_padded =
     JObj ((''id'', JStr ''lin-001'')
           # example_fields ''Bananas''
               (example_table (JStr '' $8.00/kg'')
                  (JObj [(''value'', JInt 2), (''display'', JStr (''2 kg'' @ [CHR 0x0A]))])
                  (JInt 16) ''  $16.00''))"

text \<open>An item with slope 0 whose table agrees with it.\<close>

definition example_item_slope_0 :: json where
  "example_item_slope_0 =
     JObj ((''id'', JStr ''lin-001'')
           # example_fields_with ''Bananas'' (JInt 0)
               (JObj [(''unit_price'', JObj [(''value'', JInt 0), (''display'', JStr ''$0/kg'')]),
                      (''amount'', example_amount),
                      (''total'', JObj [(''value'', JInt 0), (''display'', JStr ''$0'')])]))"

text \<open>
  Items without their \<open>id\<close>, the second with a total display that does not show
  the total.
\<close>

definition example_fields_no_id :: "(string \<times> json) list" where
  "example_fields_no_id =
     example_fields ''Apples'' (example_table (JStr ''$8.00/kg'') example_amount (JInt 16) ''$16.00'')"

definition example_fields_no_id_total_15 :: "(string \<times> json) list" where
  "example_fields_no_id_total_15 =
     example_fields ''Bananas'' (example_table (JStr ''$8.00/kg'') example_amount (JInt 16) ''$15.00'')"

text \<open>The passing item with an \<open>amount\<close> that has no \<open>value\<close>.\<close>

definition example_item_no_amount_value :: json where
  "example_item_no_amount_value =
     JObj ((''id'', JStr ''lin-001'')
           # example_fields ''Bananas''
               (example_table (JStr ''$8.00/kg'') (JObj [(''display'', JStr ''2 kg'')]) (JInt 16)
                  ''$16.00''))"

text \<open>The passing item with its slope written as a string.\<close>

definition example_item_slope_str :: json where
  "example_item_slope_str =
     JObj ((''id'', JStr ''lin-003'')
           # example_fields_with ''Bananas'' (JStr ''8'')
               (example_table (JStr ''$8.00/kg'') example_amount (JInt 16) ''$16.00''))"

text \<open>
  The item of the second copy with the slope written as a string that ends in the
  separator \<open>U+001F\<close>, which \<open>int\<close> does not read.
\<close>

definition example_item_slope_sep :: json where
  "example_item_slope_sep =
     JObj ((''id'', JStr ''lin-004'')
           # example_fields_with '' bananas'' (JStr (''8'' @ [CHR 0x1F]))
               (example_table (JStr ''$8.00/kg'') example_amount (JInt 16) ''$16.00''))"

text \<open>An item whose \<open>x_unit\<close> is a list.\<close>

definition example_item_list_unit :: json where
  "example_item_list_unit =
     JObj [(''stem'', JObj [(''context'', JObj [(''item_name'', JStr ''Bananas''),
        (''x_unit'', JList [JStr ''kg'']), (''slope_m'', JInt 8)])])]"


section \<open>Properties of the balance-puzzle generator\<close>

subsection \<open>Samples and pan totals\<close>

lemma sample_shapes:
  assumes "pick_distinct_ok SHAPES 3 xs"
  obtains X Y Z where "xs = [X, Y, Z]" "X \<noteq> Y" "X \<noteq> Z" "Y \<noteq> Z"
proof -
  from assms have len: "length xs = 3" and smp: "is_sample [S, T, C] xs"
    by (simp_all add: pick_distinct_ok_def SHAPES_def)
  from len obtain X Y Z where xs: "xs = [X, Y, Z]"
    by (auto simp: numeral_3_eq_3 length_Suc_conv)
  from smp have "X \<noteq> Y \<and> X \<noteq> Z \<and> Y \<noteq> Z"
    unfolding xs by (cases X; cases Y; cases Z; simp)
  with xs that show thesis by blast
qed

lemma side_total_dict:
  assumes "X \<noteq> Y" "X \<noteq> Z" "Y \<noteq> Z"
  shows "side_total wt \<lparr>shapes = [X \<mapsto> a, Y \<mapsto> b, Z \<mapsto> c], weight = w\<rparr>
         = real_of_int a * wt X + real_of_int b * wt Y + real_of_int c * wt Z + real_of_int w"
  using assms by (cases X; cases Y; cases Z; simp add: side_total_def SHAPES_def)

lemma side_total_set_coeff:
  "side_total wt (set_coeff sh k sd)
   = side_total wt sd
     - (case shapes sd sh of None \<Rightarrow> 0 | Some k0 \<Rightarrow> real_of_int k0 * wt sh)
     + real_of_int k * wt sh"
  by (cases sh) (auto simp: side_total_def SHAPES_def set_coeff_def split: option.splits)

lemma side_total_add_weight:
  "side_total wt (add_weight w sd) = side_total wt sd + real_of_int w"
  by (simp add: side_total_def add_weight_def)

lemma side_total_blank:
  "side_total wt (blank_side X Y Z w) = real_of_int w"
  by (cases X; cases Y; cases Z; simp add: side_total_def SHAPES_def blank_side_def)

lemma side_total_single:
  assumes "sh \<in> {X, Y, Z}"
  shows "side_total wt (set_coeff sh 1 (blank_side X Y Z w)) = wt sh + real_of_int w"
proof -
  have "shapes (blank_side X Y Z w) sh = Some 0"
    using assms by (auto simp: blank_side_def)
  then show ?thesis
    by (simp add: side_total_set_coeff side_total_blank)
qed

lemma choices_iff: "k2 \<in> set (choices k1) \<longleftrightarrow> 1 \<le> k2 \<and> k2 \<le> 6 \<and> k2 \<noteq> k1"
  by (auto simp: choices_def)

lemma proportional_heavier:
  fixes x y :: real
  assumes "0 < k1" "k1 < k2" "0 < y" "real_of_int k1 * x = real_of_int k2 * y"
  shows "y < x"
proof -
  have "real_of_int k1 * y < real_of_int k2 * y" using assms by simp
  also have "\<dots> = real_of_int k1 * x" using assms by simp
  finally have "real_of_int k1 * y < real_of_int k1 * x" .
  moreover have "0 < real_of_int k1" using assms by simp
  ultimately show ?thesis by (simp only: mult_less_cancel_left_pos)
qed

lemma sample_pair:
  assumes "pick_distinct_ok [a, b] 2 ws"
  shows "ws = [a, b] \<or> ws = [b, a]"
proof -
  from assms have len: "length ws = 2" and smp: "is_sample [a, b] ws"
    by (simp_all add: pick_distinct_ok_def)
  from len obtain u v where ws: "ws = [u, v]"
    by (auto simp: numeral_2_eq_2 length_Suc_conv)
  from smp show ?thesis unfolding ws by (auto split: if_splits)
qed

subsection \<open>The easy proportional-equality strategy\<close>

lemma easy_proportional_unfold:
  "easy_puzzle_proportional_equality
      \<lparr>pd_shapes = [X, Y, Z], pd_k1 = k1, pd_k2 = k2, pd_add_third = r1, pd_k3 = k3, pd_op = r2\<rparr>
   = Inr \<lparr>equality =
            \<lparr>left = \<lparr>shapes = [X \<mapsto> k1, Y \<mapsto> 0, Z \<mapsto> (if r1 > 0.5 then k3 else 0)], weight = 0\<rparr>,
             right = \<lparr>shapes = [X \<mapsto> 0, Y \<mapsto> k2, Z \<mapsto> (if r1 > 0.5 then k3 else 0)], weight = 0\<rparr>\<rparr>,
          inequality_template = (if r2 > 0.5 then ''_<_'' else ''_>_''),
          inequality =
            \<lparr>left = set_coeff (if (k1 < k2) = (r2 > 0.5) then Y else X) 1 (blank_side X Y Z 0),
             right = set_coeff (if (k1 < k2) = (r2 > 0.5) then X else Y) 1 (blank_side X Y Z 0),
             op = Some (if r2 > 0.5 then ''<'' else ''>'')\<rparr>,
          answer = (if (k1 < k2) = (r2 > 0.5) then [Y, X] else [X, Y])\<rparr>"
  by (simp add: easy_puzzle_proportional_equality_def Let_def set_coeff_def)

text \<open>
  Claim C1. Every puzzle of the easy proportional-equality strategy, for draws in
  range: the strategy returns a puzzle whose Equality carries the coefficient
  \<open>k1\<close> for the first symbol on the left and \<open>k2\<close> for the second on the right;
  for all positive shape weights that balance the Equality, filling the template
  \<open>_op_\<close> with the stored Answer pair, in order, gives a true statement (read on
  the two symbols and on the two pans of the stored Inequality), and the symbol
  with the smaller coefficient is the heavier one; with \<open>k1 = 2\<close>, \<open>k2 = 5\<close> and
  operator \<open>>\<close> the Answer is \<open>[X, Y]\<close>.
\<close>

theorem easy_proportional_answer_true:
  assumes ok: "prop_draws_ok d"
  shows "\<exists>p. easy_puzzle_proportional_equality d = Inr p
           \<and> length (answer p) = 2
           \<and> shapes (left (equality p)) (pd_shapes d ! 0) = Some (pd_k1 d)
           \<and> shapes (right (equality p)) (pd_shapes d ! 1) = Some (pd_k2 d)
           \<and> (\<forall>wt. (\<forall>sh. 0 < wt sh) \<and> balanced wt (equality p) \<longrightarrow>
                 (\<exists>o'. op (inequality p) = Some o'
                    \<and> inequality_template p = ''_'' @ o' @ ''_''
                    \<and> holds_op o' (wt (answer p ! 0)) (wt (answer p ! 1))
                    \<and> holds_op o' (side_total wt (left (inequality p)))
                                  (side_total wt (right (inequality p))))
                 \<and> (pd_k1 d < pd_k2 d \<longrightarrow> wt (pd_shapes d ! 1) < wt (pd_shapes d ! 0))
                 \<and> (pd_k2 d < pd_k1 d \<longrightarrow> wt (pd_shapes d ! 0) < wt (pd_shapes d ! 1)))
           \<and> (pd_k1 d = 2 \<and> pd_k2 d = 5 \<and> op (inequality p) = Some ''>''
                 \<longrightarrow> answer p = [pd_shapes d ! 0, pd_shapes d ! 1])"
proof -
  obtain xs k1 k2 r1 k3 r2 where d: "d = \<lparr>pd_shapes = xs, pd_k1 = k1, pd_k2 = k2,
      pd_add_third = r1, pd_k3 = k3, pd_op = r2\<rparr>"
    by (cases d) auto
  from ok obtain X Y Z where xs: "xs = [X, Y, Z]" and ne: "X \<noteq> Y" "X \<noteq> Z" "Y \<noteq> Z"
    unfolding d prop_draws_ok_def by (auto elim: sample_shapes)
  from ok have k: "1 \<le> k1" "1 \<le> k2" "k1 \<noteq> k2"
    unfolding d prop_draws_ok_def by (auto simp: choices_iff)
  let ?p = "\<lparr>equality =
            \<lparr>left = \<lparr>shapes = [X \<mapsto> k1, Y \<mapsto> 0, Z \<mapsto> (if r1 > 0.5 then k3 else 0)], weight = 0\<rparr>,
             right = \<lparr>shapes = [X \<mapsto> 0, Y \<mapsto> k2, Z \<mapsto> (if r1 > 0.5 then k3 else 0)], weight = 0\<rparr>\<rparr>,
          inequality_template = (if r2 > 0.5 then ''_<_'' else ''_>_''),
          inequality =
            \<lparr>left = set_coeff (if (k1 < k2) = (r2 > 0.5) then Y else X) 1 (blank_side X Y Z 0),
             right = set_coeff (if (k1 < k2) = (r2 > 0.5) then X else Y) 1 (blank_side X Y Z 0),
             op = Some (if r2 > 0.5 then ''<'' else ''>'')\<rparr>,
          answer = (if (k1 < k2) = (r2 > 0.5) then [Y, X] else [X, Y])\<rparr>"
  have run: "easy_puzzle_proportional_equality d = Inr ?p"
    unfolding d xs by (rule easy_proportional_unfold)
  have heavier: "(k1 < k2 \<longrightarrow> wt Y < wt X) \<and> (k2 < k1 \<longrightarrow> wt X < wt Y)"
    if pos: "\<forall>sh. 0 < wt sh" and bal: "balanced wt (equality ?p)" for wt
  proof -
    from bal have eq: "real_of_int k1 * wt X = real_of_int k2 * wt Y"
      by (simp add: balanced_def side_total_dict [OF ne])
    from pos have "0 < wt X" "0 < wt Y" by simp_all
    then show ?thesis
      using k proportional_heavier [of k1 k2 "wt Y" "wt X"]
        proportional_heavier [of k2 k1 "wt X" "wt Y"] eq
      by auto
  qed
  have sides: "side_total wt (left (inequality ?p)) = wt (answer ?p ! 0)
             \<and> side_total wt (right (inequality ?p)) = wt (answer ?p ! 1)" for wt
    by (simp add: side_total_single)
  have c2: "shapes (left (equality ?p)) (pd_shapes d ! 0) = Some (pd_k1 d)"
    using ne by (simp add: d xs)
  have c3: "shapes (right (equality ?p)) (pd_shapes d ! 1) = Some (pd_k2 d)"
    using ne by (simp add: d xs)
  have c5: "pd_k1 d = 2 \<and> pd_k2 d = 5 \<and> op (inequality ?p) = Some ''>''
              \<longrightarrow> answer ?p = [pd_shapes d ! 0, pd_shapes d ! 1]"
    by (simp add: d xs split: if_splits)
  have c4: "\<forall>wt. (\<forall>sh. 0 < wt sh) \<and> balanced wt (equality ?p) \<longrightarrow>
                 (\<exists>o'. op (inequality ?p) = Some o'
                    \<and> inequality_template ?p = ''_'' @ o' @ ''_''
                    \<and> holds_op o' (wt (answer ?p ! 0)) (wt (answer ?p ! 1))
                    \<and> holds_op o' (side_total wt (left (inequality ?p)))
                                  (side_total wt (right (inequality ?p))))
                 \<and> (pd_k1 d < pd_k2 d \<longrightarrow> wt (pd_shapes d ! 1) < wt (pd_shapes d ! 0))
                 \<and> (pd_k2 d < pd_k1 d \<longrightarrow> wt (pd_shapes d ! 0) < wt (pd_shapes d ! 1))"
  proof (intro allI impI)
    fix wt assume h: "(\<forall>sh. 0 < wt sh) \<and> balanced wt (equality ?p)"
    note hv = heavier [of wt, OF conjunct1 [OF h] conjunct2 [OF h]]
    have a: "pd_k1 d < pd_k2 d \<longrightarrow> wt (pd_shapes d ! 1) < wt (pd_shapes d ! 0)"
      using hv by (simp add: d xs)
    have b: "pd_k2 d < pd_k1 d \<longrightarrow> wt (pd_shapes d ! 0) < wt (pd_shapes d ! 1)"
      using hv by (simp add: d xs)
    have ans: "holds_op (if r2 > 0.5 then ''<'' else ''>'') (wt (answer ?p ! 0)) (wt (answer ?p ! 1))"
      using hv k by (auto simp: holds_op_def)
    have c: "\<exists>o'. op (inequality ?p) = Some o'
            \<and> inequality_template ?p = ''_'' @ o' @ ''_''
            \<and> holds_op o' (wt (answer ?p ! 0)) (wt (answer ?p ! 1))
            \<and> holds_op o' (side_total wt (left (inequality ?p)))
                          (side_total wt (right (inequality ?p)))"
      apply (rule exI [of _ "if r2 > 0.5 then ''<'' else ''>''"])
      apply (simp only: sides)
      using ans by simp
    from a b c show "(\<exists>o'. op (inequality ?p) = Some o'
                    \<and> inequality_template ?p = ''_'' @ o' @ ''_''
                    \<and> holds_op o' (wt (answer ?p ! 0)) (wt (answer ?p ! 1))
                    \<and> holds_op o' (side_total wt (left (inequality ?p)))
                                  (side_total wt (right (inequality ?p))))
                 \<and> (pd_k1 d < pd_k2 d \<longrightarrow> wt (pd_shapes d ! 1) < wt (pd_shapes d ! 0))
                 \<and> (pd_k2 d < pd_k1 d \<longrightarrow> wt (pd_shapes d ! 0) < wt (pd_shapes d ! 1))"
      by (intro conjI)
  qed
  have c1: "length (answer ?p) = 2" by simp
  show ?thesis
    by (rule exI [of _ ?p]) (intro conjI run c1 c2 c3 c4 c5)
qed

theorem easy_proportional_answer_true_witness:
  "prop_draws_ok prop_draws_example
   \<and> (\<forall>sh. 0 < prop_weights_example sh)
   \<and> (\<exists>p. easy_puzzle_proportional_equality prop_draws_example = Inr p
          \<and> balanced prop_weights_example (equality p)
          \<and> inequality_template p = ''_>_''
          \<and> answer p = [S, T]
          \<and> holds_op ''>'' (prop_weights_example S) (prop_weights_example T))"
proof -
  have ok: "prop_draws_ok prop_draws_example"
    by (simp add: prop_draws_ok_def prop_draws_example_def pick_distinct_ok_def SHAPES_def
        choices_def)
  have pos: "\<forall>sh. 0 < prop_weights_example sh"
    by (simp add: prop_weights_example_def split: shape.split)
  from easy_proportional_answer_true [OF ok] obtain p where
    run: "easy_puzzle_proportional_equality prop_draws_example = Inr p"
    and sem: "\<forall>wt. (\<forall>sh. 0 < wt sh) \<and> balanced wt (equality p) \<longrightarrow>
                 (\<exists>o'. op (inequality p) = Some o'
                    \<and> inequality_template p = ''_'' @ o' @ ''_''
                    \<and> holds_op o' (wt (answer p ! 0)) (wt (answer p ! 1))
                    \<and> holds_op o' (side_total wt (left (inequality p)))
                                  (side_total wt (right (inequality p))))
                 \<and> (pd_k1 prop_draws_example < pd_k2 prop_draws_example \<longrightarrow>
                      wt (pd_shapes prop_draws_example ! 1) < wt (pd_shapes prop_draws_example ! 0))
                 \<and> (pd_k2 prop_draws_example < pd_k1 prop_draws_example \<longrightarrow>
                      wt (pd_shapes prop_draws_example ! 0) < wt (pd_shapes prop_draws_example ! 1))"
    by blast
  from run have eq: "equality p =
       \<lparr>left = \<lparr>shapes = [S \<mapsto> 2, T \<mapsto> 0, C \<mapsto> 3], weight = 0\<rparr>,
        right = \<lparr>shapes = [S \<mapsto> 0, T \<mapsto> 5, C \<mapsto> 3], weight = 0\<rparr>\<rparr>"
    and tmpl: "inequality_template p = ''_>_''" and ans: "answer p = [S, T]"
    by (auto simp: prop_draws_example_def easy_proportional_unfold)
  have bal: "balanced prop_weights_example (equality p)"
    by (simp add: eq balanced_def side_total_dict prop_weights_example_def)
  from sem pos bal
  have "pd_k1 prop_draws_example < pd_k2 prop_draws_example \<longrightarrow>
          prop_weights_example (pd_shapes prop_draws_example ! 1)
            < prop_weights_example (pd_shapes prop_draws_example ! 0)"
    by blast
  then have "prop_weights_example T < prop_weights_example S"
    by (simp add: prop_draws_example_def)
  then have "holds_op ''>'' (prop_weights_example S) (prop_weights_example T)"
    by (simp add: holds_op_def)
  with ok pos run bal tmpl ans show ?thesis by blast
qed

lemma weighted_gap:
  fixes x y :: real
  assumes "0 < k" "real_of_int k * x + real_of_int a = real_of_int k * y + real_of_int b"
  shows "x - y = real_of_int (b - a) / real_of_int k"
proof -
  have "real_of_int k * (x - y) = real_of_int (b - a)"
    using assms(2) by (simp add: algebra_simps)
  moreover have "real_of_int k \<noteq> 0" using assms(1) by simp
  ultimately show ?thesis by (simp add: field_simps)
qed

subsection \<open>The easy weighted-equality strategy\<close>

lemma weighted_draws_cases:
  obtains xs w1 w2 k1 r where
    "d = \<lparr>wd_shapes = xs, wd_w1 = w1, wd_w2 = w2, wd_k1 = k1, wd_op = r\<rparr>"
  by (cases d) auto

lemma easy_weighted_unfold:
  "easy_puzzle_weighted_equality
      \<lparr>wd_shapes = [X, Y, Z], wd_w1 = w1, wd_w2 = w2, wd_k1 = k1, wd_op = r\<rparr>
   = Inr \<lparr>equality =
            \<lparr>left = \<lparr>shapes = [X \<mapsto> k1, Y \<mapsto> 0, Z \<mapsto> 0], weight = w1\<rparr>,
             right = \<lparr>shapes = [X \<mapsto> 0, Y \<mapsto> k1, Z \<mapsto> 0], weight = w2\<rparr>\<rparr>,
          inequality_template = (if r > 0.5 then ''_<_'' else ''_>_''),
          inequality =
            \<lparr>left = set_coeff (if (w1 < w2) = (r > 0.5) then Y else X) 1 (blank_side X Y Z 0),
             right = set_coeff (if (w1 < w2) = (r > 0.5) then X else Y) 1 (blank_side X Y Z 0),
             op = Some (if r > 0.5 then ''<'' else ''>'')\<rparr>,
          answer = (if (w1 < w2) = (r > 0.5) then [Y, X] else [X, Y])\<rparr>"
  by (simp add: easy_puzzle_weighted_equality_def Let_def set_coeff_def)

text \<open>
  Claim C2. Every puzzle of the easy weighted-equality strategy, for draws in
  range: the Equality is \<open>k X + w1 = k Y + w2\<close>; for all positive shape weights
  that balance it, the symbol on the side with the larger additive weight is the
  lighter one, and filling the template \<open>_op_\<close> with the stored Answer pair, in
  order, gives a true statement.
\<close>

theorem easy_weighted_answer_true:
  assumes ok: "weighted_draws_ok d"
  shows "\<exists>p. easy_puzzle_weighted_equality d = Inr p
           \<and> length (answer p) = 2
           \<and> shapes (left (equality p)) (wd_shapes d ! 0) = Some (wd_k1 d)
           \<and> shapes (right (equality p)) (wd_shapes d ! 1) = Some (wd_k1 d)
           \<and> weight (left (equality p)) = wd_w1 d
           \<and> weight (right (equality p)) = wd_w2 d
           \<and> (\<forall>wt. (\<forall>sh. 0 < wt sh) \<and> balanced wt (equality p) \<longrightarrow>
                 (\<exists>o'. op (inequality p) = Some o'
                    \<and> inequality_template p = ''_'' @ o' @ ''_''
                    \<and> holds_op o' (wt (answer p ! 0)) (wt (answer p ! 1))
                    \<and> holds_op o' (side_total wt (left (inequality p)))
                                  (side_total wt (right (inequality p))))
                 \<and> (wd_w1 d < wd_w2 d \<longrightarrow> wt (wd_shapes d ! 1) < wt (wd_shapes d ! 0))
                 \<and> (wd_w2 d < wd_w1 d \<longrightarrow> wt (wd_shapes d ! 0) < wt (wd_shapes d ! 1)))"
proof -
  obtain xs w1 w2 k1 r where d: "d = \<lparr>wd_shapes = xs, wd_w1 = w1, wd_w2 = w2,
      wd_k1 = k1, wd_op = r\<rparr>"
    by (rule weighted_draws_cases)
  from ok obtain X Y Z where xs: "xs = [X, Y, Z]" and ne: "X \<noteq> Y" "X \<noteq> Z" "Y \<noteq> Z"
    unfolding d weighted_draws_ok_def by (auto elim: sample_shapes)
  from ok have k: "0 < k1" "w1 \<noteq> w2"
    unfolding d weighted_draws_ok_def by (auto simp: choices_iff)
  let ?p = "\<lparr>equality =
            \<lparr>left = \<lparr>shapes = [X \<mapsto> k1, Y \<mapsto> 0, Z \<mapsto> 0], weight = w1\<rparr>,
             right = \<lparr>shapes = [X \<mapsto> 0, Y \<mapsto> k1, Z \<mapsto> 0], weight = w2\<rparr>\<rparr>,
          inequality_template = (if r > 0.5 then ''_<_'' else ''_>_''),
          inequality =
            \<lparr>left = set_coeff (if (w1 < w2) = (r > 0.5) then Y else X) 1 (blank_side X Y Z 0),
             right = set_coeff (if (w1 < w2) = (r > 0.5) then X else Y) 1 (blank_side X Y Z 0),
             op = Some (if r > 0.5 then ''<'' else ''>'')\<rparr>,
          answer = (if (w1 < w2) = (r > 0.5) then [Y, X] else [X, Y])\<rparr>"
  have run: "easy_puzzle_weighted_equality d = Inr ?p"
    unfolding d xs by (rule easy_weighted_unfold)
  have heavier: "(w1 < w2 \<longrightarrow> wt Y < wt X) \<and> (w2 < w1 \<longrightarrow> wt X < wt Y)"
    if bal: "balanced wt (equality ?p)" for wt
  proof -
    from bal have "real_of_int k1 * wt X + real_of_int w1 = real_of_int k1 * wt Y + real_of_int w2"
      by (simp add: balanced_def side_total_dict [OF ne])
    from weighted_gap [OF k(1) this]
    have gap: "wt X - wt Y = real_of_int (w2 - w1) / real_of_int k1" .
    show ?thesis
    proof (intro conjI impI)
      assume "w1 < w2"
      then have "0 < real_of_int (w2 - w1) / real_of_int k1" using k(1) by simp
      with gap show "wt Y < wt X" by simp
    next
      assume "w2 < w1"
      then have "real_of_int (w2 - w1) / real_of_int k1 < 0"
        using k(1) by (simp add: divide_neg_pos)
      with gap show "wt X < wt Y" by simp
    qed
  qed
  have sides: "side_total wt (left (inequality ?p)) = wt (answer ?p ! 0)
             \<and> side_total wt (right (inequality ?p)) = wt (answer ?p ! 1)" for wt
    by (simp add: side_total_single)
  have c1: "length (answer ?p) = 2" by simp
  have c2: "shapes (left (equality ?p)) (wd_shapes d ! 0) = Some (wd_k1 d)"
    using ne by (simp add: d xs)
  have c3: "shapes (right (equality ?p)) (wd_shapes d ! 1) = Some (wd_k1 d)"
    using ne by (simp add: d xs)
  have c4: "weight (left (equality ?p)) = wd_w1 d" by (simp add: d)
  have c5: "weight (right (equality ?p)) = wd_w2 d" by (simp add: d)
  have c6: "\<forall>wt. (\<forall>sh. 0 < wt sh) \<and> balanced wt (equality ?p) \<longrightarrow>
                 (\<exists>o'. op (inequality ?p) = Some o'
                    \<and> inequality_template ?p = ''_'' @ o' @ ''_''
                    \<and> holds_op o' (wt (answer ?p ! 0)) (wt (answer ?p ! 1))
                    \<and> holds_op o' (side_total wt (left (inequality ?p)))
                                  (side_total wt (right (inequality ?p))))
                 \<and> (wd_w1 d < wd_w2 d \<longrightarrow> wt (wd_shapes d ! 1) < wt (wd_shapes d ! 0))
                 \<and> (wd_w2 d < wd_w1 d \<longrightarrow> wt (wd_shapes d ! 0) < wt (wd_shapes d ! 1))"
  proof (intro allI impI)
    fix wt assume h: "(\<forall>sh. 0 < wt sh) \<and> balanced wt (equality ?p)"
    note hv = heavier [of wt, OF conjunct2 [OF h]]
    have a: "wd_w1 d < wd_w2 d \<longrightarrow> wt (wd_shapes d ! 1) < wt (wd_shapes d ! 0)"
      using hv by (simp add: d xs)
    have b: "wd_w2 d < wd_w1 d \<longrightarrow> wt (wd_shapes d ! 0) < wt (wd_shapes d ! 1)"
      using hv by (simp add: d xs)
    have ans: "holds_op (if r > 0.5 then ''<'' else ''>'') (wt (answer ?p ! 0)) (wt (answer ?p ! 1))"
      using hv k by (auto simp: holds_op_def)
    have c: "\<exists>o'. op (inequality ?p) = Some o'
            \<and> inequality_template ?p = ''_'' @ o' @ ''_''
            \<and> holds_op o' (wt (answer ?p ! 0)) (wt (answer ?p ! 1))
            \<and> holds_op o' (side_total wt (left (inequality ?p)))
                          (side_total wt (right (inequality ?p)))"
      apply (rule exI [of _ "if r > 0.5 then ''<'' else ''>''"])
      apply (simp only: sides)
      using ans by simp
    from a b c show "(\<exists>o'. op (inequality ?p) = Some o'
                    \<and> inequality_template ?p = ''_'' @ o' @ ''_''
                    \<and> holds_op o' (wt (answer ?p ! 0)) (wt (answer ?p ! 1))
                    \<and> holds_op o' (side_total wt (left (inequality ?p)))
                                  (side_total wt (right (inequality ?p))))
                 \<and> (wd_w1 d < wd_w2 d \<longrightarrow> wt (wd_shapes d ! 1) < wt (wd_shapes d ! 0))
                 \<and> (wd_w2 d < wd_w1 d \<longrightarrow> wt (wd_shapes d ! 0) < wt (wd_shapes d ! 1))"
      by (intro conjI)
  qed
  show ?thesis
    by (rule exI [of _ ?p]) (intro conjI run c1 c2 c3 c4 c5 c6)
qed

theorem easy_weighted_answer_true_witness:
  "weighted_draws_ok weighted_draws_example
   \<and> (\<forall>sh. 0 < weighted_weights_example sh)
   \<and> (\<exists>p. easy_puzzle_weighted_equality weighted_draws_example = Inr p
          \<and> balanced weighted_weights_example (equality p)
          \<and> inequality_template p = ''_<_''
          \<and> answer p = [T, C]
          \<and> holds_op ''<'' (weighted_weights_example T) (weighted_weights_example C))"
proof -
  have ok: "weighted_draws_ok weighted_draws_example"
    by (simp add: weighted_draws_ok_def weighted_draws_example_def pick_distinct_ok_def
        SHAPES_def choices_def)
  have pos: "\<forall>sh. 0 < weighted_weights_example sh"
    by (simp add: weighted_weights_example_def split: shape.split)
  from easy_weighted_answer_true [OF ok] obtain p where
    run: "easy_puzzle_weighted_equality weighted_draws_example = Inr p"
    and sem: "\<forall>wt. (\<forall>sh. 0 < wt sh) \<and> balanced wt (equality p) \<longrightarrow>
                 (\<exists>o'. op (inequality p) = Some o'
                    \<and> inequality_template p = ''_'' @ o' @ ''_''
                    \<and> holds_op o' (wt (answer p ! 0)) (wt (answer p ! 1))
                    \<and> holds_op o' (side_total wt (left (inequality p)))
                                  (side_total wt (right (inequality p))))
                 \<and> (wd_w1 weighted_draws_example < wd_w2 weighted_draws_example \<longrightarrow>
                      wt (wd_shapes weighted_draws_example ! 1)
                        < wt (wd_shapes weighted_draws_example ! 0))
                 \<and> (wd_w2 weighted_draws_example < wd_w1 weighted_draws_example \<longrightarrow>
                      wt (wd_shapes weighted_draws_example ! 0)
                        < wt (wd_shapes weighted_draws_example ! 1))"
    by blast
  from run have eq: "equality p =
       \<lparr>left = \<lparr>shapes = [T \<mapsto> 2, C \<mapsto> 0, S \<mapsto> 0], weight = 6\<rparr>,
        right = \<lparr>shapes = [T \<mapsto> 0, C \<mapsto> 2, S \<mapsto> 0], weight = 2\<rparr>\<rparr>"
    and tmpl: "inequality_template p = ''_<_''" and ans: "answer p = [T, C]"
    by (auto simp: weighted_draws_example_def easy_weighted_unfold)
  have bal: "balanced weighted_weights_example (equality p)"
    by (simp add: eq balanced_def side_total_dict weighted_weights_example_def)
  from sem pos bal
  have "wd_w2 weighted_draws_example < wd_w1 weighted_draws_example \<longrightarrow>
          weighted_weights_example (wd_shapes weighted_draws_example ! 0)
            < weighted_weights_example (wd_shapes weighted_draws_example ! 1)"
    by blast
  then have "weighted_weights_example T < weighted_weights_example C"
    by (simp add: weighted_draws_example_def)
  then have "holds_op ''<'' (weighted_weights_example T) (weighted_weights_example C)"
    by (simp add: holds_op_def)
  with ok pos run bal tmpl ans show ?thesis by blast
qed

subsection \<open>The difficult strategy\<close>

lemma diff_draws_cases:
  obtains xs k1 w off ws r wo where
    "d = \<lparr>dd_shapes = xs, dd_k1 = k1, dd_w = w, dd_w_offset = off, dd_weights = ws,
          dd_escalate = r, dd_weight_offset = wo\<rparr>"
  by (cases d) auto

lemma difficult_unfold:
  assumes "k1 \<noteq> 0"
  shows "difficult_puzzle_weighted_equality
      \<lparr>dd_shapes = [X, Y, Z], dd_k1 = k1, dd_w = w, dd_w_offset = off, dd_weights = [a, b],
       dd_escalate = r, dd_weight_offset = wo\<rparr>
   = (let d' = real_of_int (b - a) / real_of_int k1;
          g = py_int_of_float (\<bar>d'\<bar> - 1);
          A0 = (if d' > 0 then X else Y);
          A1 = (if d' > 0 then Y else X);
          base_left = set_coeff A0 1 (blank_side X Y Z 0);
          base_right = set_coeff A1 1 (blank_side X Y Z g)
      in Inr \<lparr>equality =
            \<lparr>left = \<lparr>shapes = [X \<mapsto> k1, Y \<mapsto> 0, Z \<mapsto> 0], weight = a\<rparr>,
             right = \<lparr>shapes = [X \<mapsto> 0, Y \<mapsto> k1, Z \<mapsto> 0], weight = b\<rparr>\<rparr>,
          inequality_template =
             (if r > 0.5
              then ''_+'' @ shape_sym Z @ ''+'' @ str_int wo @ ''>_+'' @ shape_sym Z @ ''+''
                     @ str_int (g + wo)
              else ''_>_+'' @ str_int g),
          inequality =
            \<lparr>left = (if r > 0.5 then add_weight wo (set_coeff Z 1 base_left) else base_left),
             right = (if r > 0.5 then add_weight wo (set_coeff Z 1 base_right) else base_right),
             op = None\<rparr>,
          answer = [A0, A1]\<rparr>)"
  using assms by (simp add: difficult_puzzle_weighted_equality_def Let_def)

lemma py_int_of_float_of_int [simp]: "py_int_of_float (real_of_int n) = n"
  by (simp add: py_int_of_float_def)

text \<open>What the draws fix: the signed per-unit gap is plus or minus the offset.\<close>

lemma diff_draws_gap:
  assumes "0 < k1" "ws = [k1 * w, k1 * (w + off)] \<or> ws = [k1 * (w + off), k1 * w]"
  obtains a b where "ws = [a, b]"
    "real_of_int (b - a) / real_of_int k1 = real_of_int off
       \<or> real_of_int (b - a) / real_of_int k1 = - real_of_int off"
    "(a = k1 * w \<and> b = k1 * (w + off)) \<or> (a = k1 * (w + off) \<and> b = k1 * w)"
proof -
  from assms(2) show thesis
  proof
    assume ws: "ws = [k1 * w, k1 * (w + off)]"
    have "real_of_int (k1 * (w + off) - k1 * w) / real_of_int k1 = real_of_int off"
      using assms(1) by (simp add: algebra_simps)
    with ws that show thesis by blast
  next
    assume ws: "ws = [k1 * (w + off), k1 * w]"
    have "real_of_int (k1 * w - k1 * (w + off)) / real_of_int k1 = - real_of_int off"
      using assms(1) by (simp add: algebra_simps)
    with ws that show thesis by blast
  qed
qed

lemma third_coeff_blank:
  assumes "Z \<noteq> A"
  shows "shapes (set_coeff A 1 (blank_side X Y Z g)) Z = Some 0"
  using assms by (simp add: set_coeff_def blank_side_def)

lemma side_total_escalated:
  assumes "A \<in> {X, Y, Z}" "Z \<noteq> A"
  shows "side_total wt (add_weight wo (set_coeff Z 1 (set_coeff A 1 (blank_side X Y Z g))))
         = wt A + wt Z + real_of_int g + real_of_int wo"
proof -
  let ?sd = "set_coeff A 1 (blank_side X Y Z g)"
  have "side_total wt (set_coeff Z 1 ?sd) = side_total wt ?sd + wt Z"
    using side_total_set_coeff [of wt Z 1 ?sd] third_coeff_blank [OF assms(2), of X Y g]
    by simp
  also have "side_total wt ?sd = wt A + real_of_int g"
    using assms(1) by (rule side_total_single)
  finally show ?thesis
    by (simp add: side_total_add_weight)
qed

lemma remove_shared_escalated:
  assumes "shapes sd Z = Some 0"
  shows "remove_shared Z wo (add_weight wo (set_coeff Z 1 sd)) = sd"
proof -
  have "(shapes sd)(Z \<mapsto> 0) = shapes sd"
    using assms by (rule map_upd_triv)
  then show ?thesis
    by (simp add: remove_shared_def add_weight_def set_coeff_def)
qed

text \<open>What draws in range fix: three distinct symbols, and the two weights in either order.\<close>

lemma difficult_draws:
  fixes d
  defines "X \<equiv> dd_shapes d ! 0" and "Y \<equiv> dd_shapes d ! 1" and "Z \<equiv> dd_shapes d ! 2"
    and "a \<equiv> dd_weights d ! 0" and "b \<equiv> dd_weights d ! 1"
  assumes ok: "diff_draws_ok d"
  shows "X \<noteq> Y" and "X \<noteq> Z" and "Y \<noteq> Z"
    and "dd_shapes d = [X, Y, Z]" and "dd_weights d = [a, b]"
    and "(a = dd_k1 d * dd_w d \<and> b = dd_k1 d * (dd_w d + dd_w_offset d))
      \<or> (a = dd_k1 d * (dd_w d + dd_w_offset d) \<and> b = dd_k1 d * dd_w d)"
    and "real_of_int (b - a) / real_of_int (dd_k1 d) = real_of_int (dd_w_offset d)
      \<or> real_of_int (b - a) / real_of_int (dd_k1 d) = - real_of_int (dd_w_offset d)"
    and "\<bar>real_of_int (b - a) / real_of_int (dd_k1 d)\<bar> = real_of_int (dd_w_offset d)"
proof -
  from ok obtain X' Y' Z' where xs: "dd_shapes d = [X', Y', Z']"
    and ne: "X' \<noteq> Y'" "X' \<noteq> Z'" "Y' \<noteq> Z'"
    unfolding diff_draws_ok_def by (auto elim: sample_shapes)
  from ok have k: "0 < dd_k1 d" and off: "2 \<le> dd_w_offset d"
    unfolding diff_draws_ok_def by auto
  from ok have "pick_distinct_ok [dd_k1 d * dd_w d, dd_k1 d * (dd_w d + dd_w_offset d)] 2
      (dd_weights d)"
    unfolding diff_draws_ok_def by blast
  then have "dd_weights d = [dd_k1 d * dd_w d, dd_k1 d * (dd_w d + dd_w_offset d)]
      \<or> dd_weights d = [dd_k1 d * (dd_w d + dd_w_offset d), dd_k1 d * dd_w d]"
    by (rule sample_pair)
  from diff_draws_gap [OF k this] obtain a' b' where ws: "dd_weights d = [a', b']"
    and q: "real_of_int (b' - a') / real_of_int (dd_k1 d) = real_of_int (dd_w_offset d)
       \<or> real_of_int (b' - a') / real_of_int (dd_k1 d) = - real_of_int (dd_w_offset d)"
    and ab: "(a' = dd_k1 d * dd_w d \<and> b' = dd_k1 d * (dd_w d + dd_w_offset d))
       \<or> (a' = dd_k1 d * (dd_w d + dd_w_offset d) \<and> b' = dd_k1 d * dd_w d)"
    by blast
  have e: "X = X'" "Y = Y'" "Z = Z'" "a = a'" "b = b'"
    by (simp_all add: X_def Y_def Z_def a_def b_def xs ws)
  show "X \<noteq> Y" unfolding e by (rule ne)
  show "X \<noteq> Z" unfolding e by (rule ne)
  show "Y \<noteq> Z" unfolding e by (rule ne)
  show "dd_shapes d = [X, Y, Z]" unfolding e by (rule xs)
  show "dd_weights d = [a, b]" unfolding e by (rule ws)
  show "(a = dd_k1 d * dd_w d \<and> b = dd_k1 d * (dd_w d + dd_w_offset d))
      \<or> (a = dd_k1 d * (dd_w d + dd_w_offset d) \<and> b = dd_k1 d * dd_w d)"
    unfolding e by (rule ab)
  show "real_of_int (b - a) / real_of_int (dd_k1 d) = real_of_int (dd_w_offset d)
      \<or> real_of_int (b - a) / real_of_int (dd_k1 d) = - real_of_int (dd_w_offset d)"
    unfolding e by (rule q)
  have qabs: "\<bar>real_of_int (b' - a') / real_of_int (dd_k1 d)\<bar> = real_of_int (dd_w_offset d)"
  proof (rule disjE [OF q])
    assume h: "real_of_int (b' - a') / real_of_int (dd_k1 d) = real_of_int (dd_w_offset d)"
    show ?thesis unfolding h using off by simp
  next
    assume h: "real_of_int (b' - a') / real_of_int (dd_k1 d) = - real_of_int (dd_w_offset d)"
    show ?thesis unfolding h using off by simp
  qed
  show "\<bar>real_of_int (b - a) / real_of_int (dd_k1 d)\<bar> = real_of_int (dd_w_offset d)"
    unfolding e by (rule qabs)
qed

lemma difficult_run:
  fixes d
  defines "X \<equiv> dd_shapes d ! 0" and "Y \<equiv> dd_shapes d ! 1" and "Z \<equiv> dd_shapes d ! 2"
    and "a \<equiv> dd_weights d ! 0" and "b \<equiv> dd_weights d ! 1"
  defines "A0 \<equiv> (if real_of_int (b - a) / real_of_int (dd_k1 d) > 0 then X else Y)"
    and "A1 \<equiv> (if real_of_int (b - a) / real_of_int (dd_k1 d) > 0 then Y else X)"
  assumes ok: "diff_draws_ok d"
  shows "difficult_puzzle_weighted_equality d =
      Inr \<lparr>equality =
            \<lparr>left = \<lparr>shapes = [X \<mapsto> dd_k1 d, Y \<mapsto> 0, Z \<mapsto> 0], weight = a\<rparr>,
             right = \<lparr>shapes = [X \<mapsto> 0, Y \<mapsto> dd_k1 d, Z \<mapsto> 0], weight = b\<rparr>\<rparr>,
          inequality_template =
             (if dd_escalate d > 0.5
              then ''_+'' @ shape_sym Z @ ''+'' @ str_int (dd_weight_offset d) @ ''>_+''
                     @ shape_sym Z @ ''+'' @ str_int (dd_w_offset d - 1 + dd_weight_offset d)
              else ''_>_+'' @ str_int (dd_w_offset d - 1)),
          inequality =
            \<lparr>left = (if dd_escalate d > 0.5
                     then add_weight (dd_weight_offset d)
                            (set_coeff Z 1 (set_coeff A0 1 (blank_side X Y Z 0)))
                     else set_coeff A0 1 (blank_side X Y Z 0)),
             right = (if dd_escalate d > 0.5
                      then add_weight (dd_weight_offset d)
                             (set_coeff Z 1 (set_coeff A1 1 (blank_side X Y Z (dd_w_offset d - 1))))
                      else set_coeff A1 1 (blank_side X Y Z (dd_w_offset d - 1))),
             op = None\<rparr>,
          answer = [A0, A1]\<rparr>"
proof -
  obtain xs k1 w off ws r wo where d: "d = \<lparr>dd_shapes = xs, dd_k1 = k1, dd_w = w,
      dd_w_offset = off, dd_weights = ws, dd_escalate = r, dd_weight_offset = wo\<rparr>"
    by (rule diff_draws_cases)
  note dr = difficult_draws [OF ok, folded X_def Y_def Z_def a_def b_def]
  have xs: "xs = [X, Y, Z]" using dr(4) by (simp add: d)
  have ws: "ws = [a, b]" using dr(5) by (simp add: d)
  from ok have k0: "k1 \<noteq> 0" by (auto simp: d diff_draws_ok_def)
  have abs: "\<bar>real_of_int (b - a) / real_of_int k1\<bar> = real_of_int off"
    using dr(8) by (simp only: d diff_draws.simps)
  have g: "py_int_of_float (\<bar>real_of_int (b - a) / real_of_int k1\<bar> - 1) = off - 1"
  proof -
    have "\<bar>real_of_int (b - a) / real_of_int k1\<bar> - 1 = real_of_int (off - 1)"
      unfolding abs by simp
    then show ?thesis by (simp only: py_int_of_float_of_int)
  qed
  have A: "A0 = (if real_of_int (b - a) / real_of_int k1 > 0 then X else Y)"
    "A1 = (if real_of_int (b - a) / real_of_int k1 > 0 then Y else X)"
    by (simp_all only: A0_def A1_def d diff_draws.simps)
  show ?thesis
    unfolding d xs ws
    by (simp only: difficult_unfold [OF k0] Let_def g diff_draws.simps A)
qed

lemma difficult_total:
  assumes ok: "diff_draws_ok d"
  shows "\<exists>p. difficult_puzzle_weighted_equality d = Inr p"
  by (rule exI, rule difficult_run [OF ok])

lemma difficult_fields:
  fixes d p
  defines "X \<equiv> dd_shapes d ! 0" and "Y \<equiv> dd_shapes d ! 1" and "Z \<equiv> dd_shapes d ! 2"
    and "a \<equiv> dd_weights d ! 0" and "b \<equiv> dd_weights d ! 1"
  assumes ok: "diff_draws_ok d" and p: "difficult_puzzle_weighted_equality d = Inr p"
  shows "equality p = \<lparr>left = \<lparr>shapes = [X \<mapsto> dd_k1 d, Y \<mapsto> 0, Z \<mapsto> 0], weight = a\<rparr>,
                   right = \<lparr>shapes = [X \<mapsto> 0, Y \<mapsto> dd_k1 d, Z \<mapsto> 0], weight = b\<rparr>\<rparr>"
    and "answer p = (if real_of_int (b - a) / real_of_int (dd_k1 d) > 0 then [X, Y] else [Y, X])"
    and "op (inequality p) = None"
    and "inequality_template p =
       (if dd_escalate d > 0.5
        then ''_+'' @ shape_sym Z @ ''+'' @ str_int (dd_weight_offset d) @ ''>_+''
               @ shape_sym Z @ ''+'' @ str_int (dd_w_offset d - 1 + dd_weight_offset d)
        else ''_>_+'' @ str_int (dd_w_offset d - 1))"
    and "left (inequality p) =
       (if dd_escalate d > 0.5
        then add_weight (dd_weight_offset d)
               (set_coeff Z 1 (set_coeff (answer p ! 0) 1 (blank_side X Y Z 0)))
        else set_coeff (answer p ! 0) 1 (blank_side X Y Z 0))"
    and "right (inequality p) =
       (if dd_escalate d > 0.5
        then add_weight (dd_weight_offset d)
               (set_coeff Z 1 (set_coeff (answer p ! 1) 1 (blank_side X Y Z (dd_w_offset d - 1))))
        else set_coeff (answer p ! 1) 1 (blank_side X Y Z (dd_w_offset d - 1)))"
proof -
  note pv = difficult_run [OF ok, unfolded p sum.inject, folded X_def Y_def Z_def a_def b_def]
  show "equality p = \<lparr>left = \<lparr>shapes = [X \<mapsto> dd_k1 d, Y \<mapsto> 0, Z \<mapsto> 0], weight = a\<rparr>,
                 right = \<lparr>shapes = [X \<mapsto> 0, Y \<mapsto> dd_k1 d, Z \<mapsto> 0], weight = b\<rparr>\<rparr>"
    by (subst pv) (simp only: puzzle.simps)
  show "answer p = (if real_of_int (b - a) / real_of_int (dd_k1 d) > 0 then [X, Y] else [Y, X])"
    by (subst pv) simp
  show "op (inequality p) = None"
    by (subst pv) (simp only: puzzle.simps ineq.simps)
  show "inequality_template p =
     (if dd_escalate d > 0.5
      then ''_+'' @ shape_sym Z @ ''+'' @ str_int (dd_weight_offset d) @ ''>_+''
             @ shape_sym Z @ ''+'' @ str_int (dd_w_offset d - 1 + dd_weight_offset d)
      else ''_>_+'' @ str_int (dd_w_offset d - 1))"
    by (subst pv) (simp only: puzzle.simps)
  show "left (inequality p) =
     (if dd_escalate d > 0.5
      then add_weight (dd_weight_offset d)
             (set_coeff Z 1 (set_coeff (answer p ! 0) 1 (blank_side X Y Z 0)))
      else set_coeff (answer p ! 0) 1 (blank_side X Y Z 0))"
    by (subst (1 2 3) pv) (simp only: puzzle.simps scale.simps nth_Cons_0)
  show "right (inequality p) =
     (if dd_escalate d > 0.5
      then add_weight (dd_weight_offset d)
             (set_coeff Z 1 (set_coeff (answer p ! 1) 1 (blank_side X Y Z (dd_w_offset d - 1))))
      else set_coeff (answer p ! 1) 1 (blank_side X Y Z (dd_w_offset d - 1)))"
    by (subst (1 2 3) pv) (simp only: puzzle.simps scale.simps nth_Cons_0 nth_Cons_Suc One_nat_def)
qed

lemma weight_add_weight: "weight (add_weight w sd) = weight sd + w"
  by (simp add: add_weight_def)

lemma weight_set_coeff: "weight (set_coeff sh k sd) = weight sd"
  by (simp add: set_coeff_def)

lemma weight_blank_side: "weight (blank_side X Y Z w) = w"
  by (simp add: blank_side_def)

lemma difficult_gap:
  assumes ok: "diff_draws_ok d" and p: "difficult_puzzle_weighted_equality d = Inr p"
  shows "weight (right (inequality p)) - weight (left (inequality p)) = dd_w_offset d - 1"
  by (simp add: difficult_fields(5,6) [OF ok p] weight_add_weight weight_set_coeff
      weight_blank_side)

lemma difficult_weights:
  assumes ok: "diff_draws_ok d" and p: "difficult_puzzle_weighted_equality d = Inr p"
  shows "weight (left (equality p)) = dd_weights d ! 0"
    and "weight (right (equality p)) = dd_weights d ! 1"
  by (simp_all add: difficult_fields(1) [OF ok p])

text \<open>
  Claim C10. Every puzzle of the difficult strategy, for draws in range: the two
  side weights of the Equality are exactly \<open>k w\<close> and \<open>k (w + w_offset)\<close>, in
  either order, so the per-unit gap \<open>d\<close> has \<open>|d| = w_offset\<close>, in \<open>[2, 4]\<close>; the
  gap constant of the Inequality is \<open>int(|d| - 1)\<close> and lies in \<open>[1, 3]\<close>, so a
  zero or negative gap is never produced.
\<close>

theorem difficult_gap_range:
  assumes ok: "diff_draws_ok d"
  shows "\<exists>p. difficult_puzzle_weighted_equality d = Inr p
           \<and> (let k = dd_k1 d; w = dd_w d; off = dd_w_offset d;
                   a = weight (left (equality p)); b = weight (right (equality p));
                   dq = real_of_int (b - a) / real_of_int k;
                   gap = weight (right (inequality p)) - weight (left (inequality p))
               in ((a = k * w \<and> b = k * (w + off)) \<or> (a = k * (w + off) \<and> b = k * w))
                  \<and> \<bar>dq\<bar> = real_of_int off \<and> 2 \<le> \<bar>dq\<bar> \<and> \<bar>dq\<bar> \<le> 4
                  \<and> gap = py_int_of_float (\<bar>dq\<bar> - 1)
                  \<and> 1 \<le> gap \<and> gap \<le> 3)"
proof -
  from ok have off: "2 \<le> dd_w_offset d" "dd_w_offset d \<le> 4"
    by (simp_all add: diff_draws_ok_def)
  from difficult_total [OF ok] obtain p where
    run: "difficult_puzzle_weighted_equality d = Inr p" ..
  note wa = difficult_weights(1) [OF ok run] and wb = difficult_weights(2) [OF ok run]
  note gap = difficult_gap [OF ok run]
  note ab = difficult_draws(6) [OF ok] and abs = difficult_draws(8) [OF ok]
  have trunc: "py_int_of_float (real_of_int (dd_w_offset d) - 1) = dd_w_offset d - 1"
  proof -
    have "real_of_int (dd_w_offset d) - 1 = real_of_int (dd_w_offset d - 1)" by simp
    then show ?thesis by (simp only: py_int_of_float_of_int)
  qed
  have r: "2 \<le> real_of_int (dd_w_offset d)" "real_of_int (dd_w_offset d) \<le> 4"
    "1 \<le> dd_w_offset d - 1" "dd_w_offset d - 1 \<le> 3"
    using off by simp_all
  show ?thesis
    apply (rule exI [of _ p], rule conjI, rule run)
    apply (simp only: Let_def wa wb abs gap trunc)
    apply (intro conjI ab r refl)
    done
qed

theorem difficult_gap_range_witness:
  "diff_draws_ok diff_draws_example
   \<and> (\<exists>p. difficult_puzzle_weighted_equality diff_draws_example = Inr p
          \<and> weight (left (equality p)) = 14 \<and> weight (right (equality p)) = 8
          \<and> weight (right (inequality p)) - weight (left (inequality p)) = 2)"
proof -
  have ok: "diff_draws_ok diff_draws_example"
    by (simp add: diff_draws_ok_def diff_draws_example_def pick_distinct_ok_def SHAPES_def)
  from difficult_gap_range [OF ok] obtain p where
    run: "difficult_puzzle_weighted_equality diff_draws_example = Inr p"
    and rest: "(let k = dd_k1 diff_draws_example; w = dd_w diff_draws_example;
                   off = dd_w_offset diff_draws_example;
                   a = weight (left (equality p)); b = weight (right (equality p));
                   dq = real_of_int (b - a) / real_of_int k;
                   gap = weight (right (inequality p)) - weight (left (inequality p))
               in ((a = k * w \<and> b = k * (w + off)) \<or> (a = k * (w + off) \<and> b = k * w))
                  \<and> \<bar>dq\<bar> = real_of_int off \<and> 2 \<le> \<bar>dq\<bar> \<and> \<bar>dq\<bar> \<le> 4
                  \<and> gap = py_int_of_float (\<bar>dq\<bar> - 1)
                  \<and> 1 \<le> gap \<and> gap \<le> 3)"
    by blast
  have w: "weight (left (equality p)) = 14" "weight (right (equality p)) = 8"
    using difficult_weights [OF ok run] by (simp_all add: diff_draws_example_def)
  from rest have "weight (right (inequality p)) - weight (left (inequality p))
      = py_int_of_float (\<bar>real_of_int (8 - 14) / real_of_int 2\<bar> - 1)"
    unfolding Let_def w by (simp add: diff_draws_example_def)
  also have "\<dots> = 2" by (simp add: py_int_of_float_def)
  finally show ?thesis using ok run w by blast
qed

lemma difficult_answer_cases:
  assumes ok: "diff_draws_ok d" and p: "difficult_puzzle_weighted_equality d = Inr p"
  shows "(real_of_int (dd_weights d ! 1 - dd_weights d ! 0) / real_of_int (dd_k1 d)
            = real_of_int (dd_w_offset d)
          \<and> answer p = [dd_shapes d ! 0, dd_shapes d ! 1])
       \<or> (real_of_int (dd_weights d ! 1 - dd_weights d ! 0) / real_of_int (dd_k1 d)
            = - real_of_int (dd_w_offset d)
          \<and> answer p = [dd_shapes d ! 1, dd_shapes d ! 0])"
proof -
  from ok have off: "2 \<le> dd_w_offset d" by (simp add: diff_draws_ok_def)
  note ans = difficult_fields(2) [OF ok p]
  show ?thesis
  proof (rule disjE [OF difficult_draws(7) [OF ok]])
    assume h: "real_of_int (dd_weights d ! 1 - dd_weights d ! 0) / real_of_int (dd_k1 d)
            = real_of_int (dd_w_offset d)"
    have "answer p = [dd_shapes d ! 0, dd_shapes d ! 1]"
      unfolding ans h using off by simp
    with h show ?thesis by (rule disjI1 [OF conjI])
  next
    assume h: "real_of_int (dd_weights d ! 1 - dd_weights d ! 0) / real_of_int (dd_k1 d)
            = - real_of_int (dd_w_offset d)"
    have "answer p = [dd_shapes d ! 1, dd_shapes d ! 0]"
      unfolding ans h using off by simp
    with h show ?thesis by (rule disjI2 [OF conjI])
  qed
qed

lemma difficult_answer_symbols:
  assumes ok: "diff_draws_ok d" and p: "difficult_puzzle_weighted_equality d = Inr p"
  shows "answer p ! 0 \<in> {dd_shapes d ! 0, dd_shapes d ! 1, dd_shapes d ! 2}"
    and "answer p ! 1 \<in> {dd_shapes d ! 0, dd_shapes d ! 1, dd_shapes d ! 2}"
    and "dd_shapes d ! 2 \<noteq> answer p ! 0"
    and "dd_shapes d ! 2 \<noteq> answer p ! 1"
    and "dd_shapes d ! 2 \<notin> set (answer p)"
  using difficult_answer_cases [OF ok p] difficult_draws(1-3) [OF ok]
  by auto

lemma difficult_side_totals:
  assumes ok: "diff_draws_ok d" and p: "difficult_puzzle_weighted_equality d = Inr p"
  shows "side_total wt (left (inequality p))
           = wt (answer p ! 0)
             + (if dd_escalate d > 0.5
                then wt (dd_shapes d ! 2) + real_of_int (dd_weight_offset d) else 0)"
    and "side_total wt (right (inequality p))
           = wt (answer p ! 1) + real_of_int (dd_w_offset d - 1)
             + (if dd_escalate d > 0.5
                then wt (dd_shapes d ! 2) + real_of_int (dd_weight_offset d) else 0)"
proof -
  note sy = difficult_answer_symbols [OF ok p]
  show "side_total wt (left (inequality p))
           = wt (answer p ! 0)
             + (if dd_escalate d > 0.5
                then wt (dd_shapes d ! 2) + real_of_int (dd_weight_offset d) else 0)"
    unfolding difficult_fields(5) [OF ok p]
    using side_total_escalated [OF sy(1) sy(3), of wt "dd_weight_offset d" 0]
      side_total_single [OF sy(1), of wt 0]
    by simp
  show "side_total wt (right (inequality p))
           = wt (answer p ! 1) + real_of_int (dd_w_offset d - 1)
             + (if dd_escalate d > 0.5
                then wt (dd_shapes d ! 2) + real_of_int (dd_weight_offset d) else 0)"
    unfolding difficult_fields(6) [OF ok p]
    using side_total_escalated [OF sy(2) sy(4), of wt "dd_weight_offset d" "dd_w_offset d - 1"]
      side_total_single [OF sy(2), of wt "dd_w_offset d - 1"]
    by simp
qed

lemma difficult_heavier:
  assumes ok: "diff_draws_ok d" and p: "difficult_puzzle_weighted_equality d = Inr p"
    and bal: "balanced wt (equality p)"
  shows "wt (answer p ! 0) - wt (answer p ! 1) = real_of_int (dd_w_offset d)"
proof -
  from ok have k: "0 < dd_k1 d" by (simp add: diff_draws_ok_def)
  from bal have "real_of_int (dd_k1 d) * wt (dd_shapes d ! 0) + real_of_int (dd_weights d ! 0)
      = real_of_int (dd_k1 d) * wt (dd_shapes d ! 1) + real_of_int (dd_weights d ! 1)"
    unfolding balanced_def difficult_fields(1) [OF ok p]
    by (simp only: scale.simps side_total_dict [OF difficult_draws(1-3) [OF ok]])
  from weighted_gap [OF k this]
  have gap: "wt (dd_shapes d ! 0) - wt (dd_shapes d ! 1)
      = real_of_int (dd_weights d ! 1 - dd_weights d ! 0) / real_of_int (dd_k1 d)" .
  show ?thesis
  proof (rule disjE [OF difficult_answer_cases [OF ok p]])
    assume "real_of_int (dd_weights d ! 1 - dd_weights d ! 0) / real_of_int (dd_k1 d)
            = real_of_int (dd_w_offset d)
          \<and> answer p = [dd_shapes d ! 0, dd_shapes d ! 1]"
    with gap show ?thesis by simp
  next
    assume "real_of_int (dd_weights d ! 1 - dd_weights d ! 0) / real_of_int (dd_k1 d)
            = - real_of_int (dd_w_offset d)
          \<and> answer p = [dd_shapes d ! 1, dd_shapes d ! 0]"
    with gap show ?thesis by simp
  qed
qed

text \<open>
  Claim C3, as amended. Every puzzle of the difficult strategy, for draws in
  range: with \<open>d\<close> the difference of the right and left Equality weights divided
  by \<open>k\<close>, the gap constant of the Inequality is \<open>floor(|d|) - 1\<close>; the emitted
  template is \<open>_>_+gap\<close> when the escalation branch does not fire and
  \<open>_+Z+o>_+Z+(gap+o)\<close> when it fires with weight offset \<open>o\<close>, so the operator is
  \<open>>\<close> in both and the Inequality carries no \<open>op\<close> key; the Answer is \<open>[X, Y]\<close>
  when \<open>d > 0\<close> and \<open>[Y, X]\<close> otherwise, and for all weights that balance the
  Equality its first symbol is the heavier one and the stored Inequality holds.
\<close>

theorem difficult_gap_template_answer:
  assumes ok: "diff_draws_ok d"
  shows "\<exists>p. difficult_puzzle_weighted_equality d = Inr p
           \<and> (let X = dd_shapes d ! 0; Y = dd_shapes d ! 1; Z = dd_shapes d ! 2;
                   dq = real_of_int (weight (right (equality p)) - weight (left (equality p)))
                          / real_of_int (dd_k1 d);
                   gap = \<lfloor>\<bar>dq\<bar>\<rfloor> - 1
               in weight (right (inequality p)) - weight (left (inequality p)) = gap
                  \<and> inequality_template p =
                      (if dd_escalate d > 0.5
                       then ''_+'' @ shape_sym Z @ ''+'' @ str_int (dd_weight_offset d) @ ''>_+''
                              @ shape_sym Z @ ''+'' @ str_int (gap + dd_weight_offset d)
                       else ''_>_+'' @ str_int gap)
                  \<and> op (inequality p) = None
                  \<and> answer p = (if dq > 0 then [X, Y] else [Y, X])
                  \<and> (\<forall>wt. balanced wt (equality p) \<longrightarrow>
                        wt (answer p ! 1) < wt (answer p ! 0)
                        \<and> side_total wt (right (inequality p))
                            < side_total wt (left (inequality p))))"
proof -
  from ok have off: "2 \<le> dd_w_offset d"
    by (simp add: diff_draws_ok_def)
  from difficult_total [OF ok] obtain p where
    run: "difficult_puzzle_weighted_equality d = Inr p" ..
  note wa = difficult_weights(1) [OF ok run] and wb = difficult_weights(2) [OF ok run]
  note abs = difficult_draws(8) [OF ok]
  have fl: "\<lfloor>real_of_int (dd_w_offset d)\<rfloor> - 1 = dd_w_offset d - 1" by simp
  have sem: "\<forall>wt. balanced wt (equality p) \<longrightarrow>
                wt (answer p ! 1) < wt (answer p ! 0)
                \<and> side_total wt (right (inequality p)) < side_total wt (left (inequality p))"
  proof (intro allI impI)
    fix wt assume bal: "balanced wt (equality p)"
    note hv = difficult_heavier [OF ok run bal]
    have a: "wt (answer p ! 1) < wt (answer p ! 0)" using hv off by simp
    have b: "side_total wt (right (inequality p)) < side_total wt (left (inequality p))"
      unfolding difficult_side_totals [OF ok run] using hv by simp
    from a b show "wt (answer p ! 1) < wt (answer p ! 0)
        \<and> side_total wt (right (inequality p)) < side_total wt (left (inequality p))" ..
  qed
  show ?thesis
    apply (rule exI [of _ p], rule conjI, rule run)
    apply (simp only: Let_def wa wb abs fl)
    apply (intro conjI difficult_gap [OF ok run] difficult_fields(2-4) [OF ok run] sem)
    done
qed

theorem difficult_gap_template_answer_witness:
  "diff_draws_ok diff_draws_example
   \<and> (\<exists>p. difficult_puzzle_weighted_equality diff_draws_example = Inr p
          \<and> balanced diff_weights_example (equality p)
          \<and> inequality_template p = ''_>_+2''
          \<and> answer p = [T, S]
          \<and> diff_weights_example S < diff_weights_example T)"
proof -
  have ok: "diff_draws_ok diff_draws_example"
    by (simp add: diff_draws_ok_def diff_draws_example_def pick_distinct_ok_def SHAPES_def)
  from difficult_gap_template_answer [OF ok] obtain p where
    run: "difficult_puzzle_weighted_equality diff_draws_example = Inr p"
    and rest: "(let X = dd_shapes diff_draws_example ! 0; Y = dd_shapes diff_draws_example ! 1;
                   Z = dd_shapes diff_draws_example ! 2;
                   dq = real_of_int (weight (right (equality p)) - weight (left (equality p)))
                          / real_of_int (dd_k1 diff_draws_example);
                   gap = \<lfloor>\<bar>dq\<bar>\<rfloor> - 1
               in weight (right (inequality p)) - weight (left (inequality p)) = gap
                  \<and> inequality_template p =
                      (if dd_escalate diff_draws_example > 0.5
                       then ''_+'' @ shape_sym Z @ ''+''
                              @ str_int (dd_weight_offset diff_draws_example) @ ''>_+''
                              @ shape_sym Z @ ''+''
                              @ str_int (gap + dd_weight_offset diff_draws_example)
                       else ''_>_+'' @ str_int gap)
                  \<and> op (inequality p) = None
                  \<and> answer p = (if dq > 0 then [X, Y] else [Y, X])
                  \<and> (\<forall>wt. balanced wt (equality p) \<longrightarrow>
                        wt (answer p ! 1) < wt (answer p ! 0)
                        \<and> side_total wt (right (inequality p))
                            < side_total wt (left (inequality p))))"
    by blast
  have w: "weight (left (equality p)) = 14" "weight (right (equality p)) = 8"
    using difficult_weights [OF ok run] by (simp_all add: diff_draws_example_def)
  have eq: "equality p = \<lparr>left = \<lparr>shapes = [S \<mapsto> 2, T \<mapsto> 0, C \<mapsto> 0], weight = 14\<rparr>,
                          right = \<lparr>shapes = [S \<mapsto> 0, T \<mapsto> 2, C \<mapsto> 0], weight = 8\<rparr>\<rparr>"
    using difficult_fields(1) [OF ok run] by (simp add: diff_draws_example_def)
  have bal: "balanced diff_weights_example (equality p)"
    by (simp add: eq balanced_def side_total_dict diff_weights_example_def)
  have dq: "real_of_int (8 - 14) / real_of_int (dd_k1 diff_draws_example) = - 3"
    by (simp add: diff_draws_example_def)
  note r = rest [unfolded Let_def w dq]
  from r have ans: "answer p = [T, S]"
    by (simp add: diff_draws_example_def)
  from r have tmpl: "inequality_template p = ''_>_+2''"
    by (simp add: diff_draws_example_def str_int_def str_nat.simps digit_char_def)
  from r bal have "diff_weights_example (answer p ! 1) < diff_weights_example (answer p ! 0)"
    by blast
  then have "diff_weights_example S < diff_weights_example T"
    by (simp add: ans)
  with ok run bal tmpl ans show ?thesis by blast
qed

text \<open>
  The template is not \<open>_>_+gap\<close> for every puzzle: on the escalated draws of
  \<open>2s + 14 = 2t + 8\<close> the gap constant is 2 and the template is \<open>_+c+3>_+c+5\<close>.
\<close>

theorem difficult_template_escalated_counterexample:
  "diff_draws_ok diff_draws_escalated
   \<and> map_sum id inequality_template (difficult_puzzle_weighted_equality diff_draws_escalated)
       = Inr ''_+c+3>_+c+5''
   \<and> map_sum id (\<lambda>p. weight (right (inequality p)) - weight (left (inequality p)))
        (difficult_puzzle_weighted_equality diff_draws_escalated) = Inr 2
   \<and> ''_+c+3>_+c+5'' \<noteq> ''_>_+'' @ str_int 2"
proof -
  have ok: "diff_draws_ok diff_draws_escalated"
    by (simp add: diff_draws_ok_def diff_draws_escalated_def pick_distinct_ok_def SHAPES_def)
  from difficult_total [OF ok] obtain p where
    run: "difficult_puzzle_weighted_equality diff_draws_escalated = Inr p" ..
  have tmpl: "inequality_template p = ''_+c+3>_+c+5''"
    using difficult_fields(4) [OF ok run]
    by (simp add: diff_draws_escalated_def str_int_def str_nat.simps digit_char_def)
  have gap: "weight (right (inequality p)) - weight (left (inequality p)) = 2"
    using difficult_gap [OF ok run] by (simp add: diff_draws_escalated_def)
  show ?thesis
    using ok by (simp add: run tmpl gap)
qed

lemma difficult_third_coeff:
  assumes ok: "diff_draws_ok d" and p: "difficult_puzzle_weighted_equality d = Inr p"
    and plain: "\<not> dd_escalate d > 0.5"
  shows "shapes (left (inequality p)) (dd_shapes d ! 2) = Some 0"
    and "shapes (right (inequality p)) (dd_shapes d ! 2) = Some 0"
  using plain difficult_answer_symbols(3,4) [OF ok p]
  by (simp_all add: difficult_fields(5,6) [OF ok p] third_coeff_blank)

text \<open>
  Claim C4. Every difficult puzzle on which the escalation branch fires, for
  draws in range: against the puzzle of the same draws without escalation, each
  pan of the Inequality has gained the third symbol \<open>Z\<close> (not one of the two Answer
  symbols) with coefficient 1 and the same weight offset, in \<open>[1, 5]\<close>; removing
  both from both pans gives the plain Inequality back, and for all weights (those
  that balance the Equality among them) the comparison of the two pans has the
  same outcome before and after the removal.
\<close>

theorem escalation_cancels:
  assumes ok: "diff_draws_ok d" and esc: "dd_escalate d > 0.5"
  shows "\<exists>p p0. difficult_puzzle_weighted_equality d = Inr p
           \<and> difficult_puzzle_weighted_equality (d\<lparr>dd_escalate := 0\<rparr>) = Inr p0
           \<and> (let Z = dd_shapes d ! 2; off = dd_weight_offset d
               in 1 \<le> off \<and> off \<le> 5 \<and> Z \<notin> set (answer p)
                  \<and> left (inequality p) = add_weight off (set_coeff Z 1 (left (inequality p0)))
                  \<and> right (inequality p) = add_weight off (set_coeff Z 1 (right (inequality p0)))
                  \<and> shapes (left (inequality p)) Z = Some 1
                  \<and> shapes (right (inequality p)) Z = Some 1
                  \<and> remove_shared Z off (left (inequality p)) = left (inequality p0)
                  \<and> remove_shared Z off (right (inequality p)) = right (inequality p0)
                  \<and> (\<forall>wt. (side_total wt (right (inequality p))
                              < side_total wt (left (inequality p)))
                           = (side_total wt (remove_shared Z off (right (inequality p)))
                              < side_total wt (remove_shared Z off (left (inequality p))))))"
proof -
  let ?d0 = "d\<lparr>dd_escalate := 0\<rparr>"
  let ?Z = "dd_shapes d ! 2" and ?off = "dd_weight_offset d"
  from ok have ok0: "diff_draws_ok ?d0" by (simp add: diff_draws_ok_def)
  from ok have off: "1 \<le> ?off" "?off \<le> 5" by (simp_all add: diff_draws_ok_def)
  have plain0: "\<not> dd_escalate ?d0 > 0.5" by simp
  from difficult_total [OF ok] obtain p where
    run: "difficult_puzzle_weighted_equality d = Inr p" ..
  from difficult_total [OF ok0] obtain p0 where
    run0: "difficult_puzzle_weighted_equality ?d0 = Inr p0" ..
  have ans: "answer p0 = answer p"
    using difficult_fields(2) [OF ok run] difficult_fields(2) [OF ok0 run0] by simp
  have l0: "left (inequality p0) = set_coeff (answer p ! 0) 1
      (blank_side (dd_shapes d ! 0) (dd_shapes d ! 1) ?Z 0)"
    using difficult_fields(5) [OF ok0 run0] by (simp add: ans)
  have r0: "right (inequality p0) = set_coeff (answer p ! 1) 1
      (blank_side (dd_shapes d ! 0) (dd_shapes d ! 1) ?Z (dd_w_offset d - 1))"
    using difficult_fields(6) [OF ok0 run0] by (simp add: ans)
  have l: "left (inequality p) = add_weight ?off (set_coeff ?Z 1 (left (inequality p0)))"
    using difficult_fields(5) [OF ok run] esc by (simp add: l0)
  have r: "right (inequality p) = add_weight ?off (set_coeff ?Z 1 (right (inequality p0)))"
    using difficult_fields(6) [OF ok run] esc by (simp add: r0)
  have z0: "shapes (left (inequality p0)) ?Z = Some 0" "shapes (right (inequality p0)) ?Z = Some 0"
    using difficult_third_coeff [OF ok0 run0 plain0] by simp_all
  have zl: "shapes (left (inequality p)) ?Z = Some 1"
    by (simp add: l add_weight_def set_coeff_def)
  have zr: "shapes (right (inequality p)) ?Z = Some 1"
    by (simp add: r add_weight_def set_coeff_def)
  have rl: "remove_shared ?Z ?off (left (inequality p)) = left (inequality p0)"
    unfolding l by (rule remove_shared_escalated [OF z0(1)])
  have rr: "remove_shared ?Z ?off (right (inequality p)) = right (inequality p0)"
    unfolding r by (rule remove_shared_escalated [OF z0(2)])
  have tl: "side_total wt (left (inequality p))
      = side_total wt (left (inequality p0)) + wt ?Z + real_of_int ?off" for wt
    unfolding l by (simp add: side_total_add_weight side_total_set_coeff z0)
  have tr: "side_total wt (right (inequality p))
      = side_total wt (right (inequality p0)) + wt ?Z + real_of_int ?off" for wt
    unfolding r by (simp add: side_total_add_weight side_total_set_coeff z0)
  have cmp: "\<forall>wt. (side_total wt (right (inequality p)) < side_total wt (left (inequality p)))
      = (side_total wt (remove_shared ?Z ?off (right (inequality p)))
          < side_total wt (remove_shared ?Z ?off (left (inequality p))))"
    unfolding rl rr by (simp add: tl tr)
  show ?thesis
    apply (rule exI [of _ p], rule exI [of _ p0], rule conjI, rule run, rule conjI, rule run0)
    apply (simp only: Let_def)
    apply (intro conjI off difficult_answer_symbols(5) [OF ok run] l r zl zr rl rr cmp)
    done
qed

theorem escalation_cancels_witness:
  "diff_draws_ok diff_draws_escalated \<and> dd_escalate diff_draws_escalated > 0.5
   \<and> (\<exists>p. difficult_puzzle_weighted_equality diff_draws_escalated = Inr p
          \<and> shapes (left (inequality p)) C = Some 1
          \<and> shapes (right (inequality p)) C = Some 1
          \<and> side_total diff_weights_example (remove_shared C 3 (right (inequality p)))
              < side_total diff_weights_example (remove_shared C 3 (left (inequality p))))"
proof -
  have ok: "diff_draws_ok diff_draws_escalated"
    by (simp add: diff_draws_ok_def diff_draws_escalated_def pick_distinct_ok_def SHAPES_def)
  have esc: "dd_escalate diff_draws_escalated > 0.5"
    by (simp add: diff_draws_escalated_def)
  from escalation_cancels [OF ok esc] obtain p p0 where
    run: "difficult_puzzle_weighted_equality diff_draws_escalated = Inr p"
    and run0: "difficult_puzzle_weighted_equality (diff_draws_escalated\<lparr>dd_escalate := 0\<rparr>)
        = Inr p0"
    and rest: "(let Z = dd_shapes diff_draws_escalated ! 2;
                   off = dd_weight_offset diff_draws_escalated
               in 1 \<le> off \<and> off \<le> 5 \<and> Z \<notin> set (answer p)
                  \<and> left (inequality p) = add_weight off (set_coeff Z 1 (left (inequality p0)))
                  \<and> right (inequality p) = add_weight off (set_coeff Z 1 (right (inequality p0)))
                  \<and> shapes (left (inequality p)) Z = Some 1
                  \<and> shapes (right (inequality p)) Z = Some 1
                  \<and> remove_shared Z off (left (inequality p)) = left (inequality p0)
                  \<and> remove_shared Z off (right (inequality p)) = right (inequality p0)
                  \<and> (\<forall>wt. (side_total wt (right (inequality p))
                              < side_total wt (left (inequality p)))
                           = (side_total wt (remove_shared Z off (right (inequality p)))
                              < side_total wt (remove_shared Z off (left (inequality p))))))"
    by blast
  have z: "dd_shapes diff_draws_escalated ! 2 = C" "dd_weight_offset diff_draws_escalated = 3"
    by (simp_all add: diff_draws_escalated_def)
  note r = rest [unfolded Let_def z]
  have eq: "equality p = \<lparr>left = \<lparr>shapes = [S \<mapsto> 2, T \<mapsto> 0, C \<mapsto> 0], weight = 14\<rparr>,
                          right = \<lparr>shapes = [S \<mapsto> 0, T \<mapsto> 2, C \<mapsto> 0], weight = 8\<rparr>\<rparr>"
    using difficult_fields(1) [OF ok run] by (simp add: diff_draws_escalated_def)
  have bal: "balanced diff_weights_example (equality p)"
    by (simp add: eq balanced_def side_total_dict diff_weights_example_def)
  have "side_total diff_weights_example (right (inequality p))
          < side_total diff_weights_example (left (inequality p))"
    unfolding difficult_side_totals [OF ok run]
    using difficult_heavier [OF ok run bal] by (simp add: diff_draws_escalated_def)
  with r have "side_total diff_weights_example (remove_shared C 3 (right (inequality p)))
              < side_total diff_weights_example (remove_shared C 3 (left (inequality p)))"
    by blast
  with ok esc run r show ?thesis by blast
qed

section \<open>Properties of the price-puzzle validator\<close>

subsection \<open>Presence of the root keys\<close>

lemma py_in_key_obj: "py_in (JStr k) (JObj kvs) = Some (k \<in> fst ` set kvs)"
  by (auto simp: list_ex_iff)

lemma check_root_keys_obj:
  "check_root_keys (JObj kvs) ks errs
   = Some (errs @ map (\<lambda>k. ''missing key: '' @ k) (filter (\<lambda>k. k \<notin> fst ` set kvs) ks))"
  by (induction ks arbitrary: errs) (simp_all add: py_in_key_obj require_def del: py_in.simps)

text \<open>
  Claim C7. If any of the eight required top-level fields is missing from an
  item (a dict), \<open>validate_item\<close> returns at once, with a fail verdict and one
  \<open>missing key\<close> error for each missing field, in the order of \<open>REQ_ROOT_KEYS\<close>,
  and nothing else.
\<close>

theorem missing_fields_abort:
  assumes "\<exists>k \<in> set REQ_ROOT_KEYS. k \<notin> fst ` set kvs"
  shows "validate_item (JObj kvs)
         = Some (False, map (\<lambda>k. ''missing key: '' @ k)
                          (filter (\<lambda>k. k \<notin> fst ` set kvs) REQ_ROOT_KEYS))"
proof -
  from assms have "filter (\<lambda>k. k \<notin> fst ` set kvs) REQ_ROOT_KEYS \<noteq> []"
    by (simp add: filter_empty_conv)
  then show ?thesis
    by (simp add: validate_item_def check_root_keys_obj)
qed

theorem missing_fields_abort_witness:
  "(\<exists>k \<in> set REQ_ROOT_KEYS. k \<notin> fst ` set example_fields_no_id)
   \<and> validate_item (JObj example_fields_no_id) = Some (False, [''missing key: id''])"
proof -
  have h: "\<exists>k \<in> set REQ_ROOT_KEYS. k \<notin> fst ` set example_fields_no_id"
    by code_simp
  have "map (\<lambda>k. ''missing key: '' @ k)
          (filter (\<lambda>k. k \<notin> fst ` set example_fields_no_id) REQ_ROOT_KEYS) = [''missing key: id'']"
    by code_simp
  with missing_fields_abort [OF h] h show ?thesis by simp
qed

subsection \<open>The verdict\<close>

lemma validate_item_verdict:
  assumes "validate_item item = Some (ok, errs)"
  shows "ok \<longleftrightarrow> errs = []"
  using assms
  by (auto simp: validate_item_def bind_eq_Some_conv split: if_splits prod.splits)

text \<open>
  Claim C6 fails on the code: an item with all eight required fields whose
  \<open>amount\<close> has no \<open>value\<close> makes \<open>validate_item\<close> raise in the total rule, where
  \<open>slope_m * amt_val\<close> multiplies by \<open>None\<close>, so no verdict and no violation list
  is returned.
\<close>

theorem validate_item_raises_without_amount_value:
  "check_root_keys example_item_no_amount_value REQ_ROOT_KEYS [] = Some []
   \<and> validate_item example_item_no_amount_value = None"
  by code_simp

subsection \<open>De-duplication\<close>

lemma py_eq_hnorm:
  assumes "py_hashable x" "py_hashable y"
  shows "py_eq x y \<longleftrightarrow> hnorm x = hnorm y"
  using assms by (cases x; cases y) auto

lemma key_eq_nkey:
  assumes "py_hashable (fst (snd k))" "py_hashable (fst (snd k'))"
  shows "key_eq k k' \<longleftrightarrow> nkey k = nkey k'"
  using assms by (auto simp: key_eq_def nkey_def py_eq_hnorm)

lemma item_keys_simps [simp]:
  "item_keys [] = {}"
  "item_keys (xs @ [it]) = item_keys xs \<union> (case dedupe_key it of None \<Rightarrow> {} | Some k \<Rightarrow> {k})"
  by (auto simp: item_keys_def split: option.splits)

lemma keys_hashable_keys:
  "keys_hashable items \<longleftrightarrow> (\<forall>k \<in> item_keys items. py_hashable (fst (snd k)))"
  by (auto simp: keys_hashable_def item_keys_def list_all_iff split: option.splits)

lemma keys_hashable_simps [simp]:
  "keys_hashable []"
  "keys_hashable (it # items) \<longleftrightarrow>
     (case dedupe_key it of None \<Rightarrow> True | Some k \<Rightarrow> py_hashable (fst (snd k)))
     \<and> keys_hashable items"
  "keys_hashable (xs @ ys) \<longleftrightarrow> keys_hashable xs \<and> keys_hashable ys"
  by (simp_all add: keys_hashable_def)

lemma is_first_nkey:
  assumes "keys_hashable earlier" "dedupe_key it = Some k" "py_hashable (fst (snd k))"
  shows "is_first earlier it \<longleftrightarrow> nkey k \<notin> nkey ` item_keys earlier"
proof -
  have sk: "same_key e it \<longleftrightarrow> (\<exists>k'. dedupe_key e = Some k' \<and> key_eq k' k)" for e
    by (simp add: same_key_def assms(2) split: option.splits)
  have "list_ex (\<lambda>e. same_key e it) earlier
        \<longleftrightarrow> (\<exists>e \<in> set earlier. \<exists>k'. dedupe_key e = Some k' \<and> key_eq k' k)"
    by (simp only: list_ex_iff sk)
  also have "\<dots> \<longleftrightarrow> (\<exists>k' \<in> item_keys earlier. key_eq k' k)"
    unfolding item_keys_def by blast
  also have "\<dots> \<longleftrightarrow> (\<exists>k' \<in> item_keys earlier. nkey k' = nkey k)"
  proof (rule bex_cong [OF refl])
    fix k' assume "k' \<in> item_keys earlier"
    with assms(1) have "py_hashable (fst (snd k'))"
      unfolding keys_hashable_keys by blast
    then show "key_eq k' k \<longleftrightarrow> nkey k' = nkey k"
      using assms(3) by (rule key_eq_nkey)
  qed
  also have "\<dots> \<longleftrightarrow> nkey k \<in> nkey ` item_keys earlier"
    unfolding image_iff by (blast intro: sym)
  finally show ?thesis
    unfolding is_first_def by blast
qed

lemma is_first_no_key:
  assumes "dedupe_key it = None"
  shows "is_first earlier it"
  using assms by (simp add: is_first_def same_key_def list_ex_iff split: option.splits)

lemma key_in_seen_nkey:
  assumes "\<forall>s \<in> set seen. py_hashable (fst (snd s))" "py_hashable (fst (snd k))"
  shows "key_in_seen k seen = Some (nkey k \<in> nkey ` set seen)"
proof -
  have "(\<exists>s \<in> set seen. key_eq s k) \<longleftrightarrow> (\<exists>s \<in> set seen. nkey s = nkey k)"
  proof (rule bex_cong [OF refl])
    fix s assume "s \<in> set seen"
    with assms(1) have "py_hashable (fst (snd s))" by blast
    then show "key_eq s k \<longleftrightarrow> nkey s = nkey k"
      using assms(2) by (rule key_eq_nkey)
  qed
  also have "\<dots> \<longleftrightarrow> nkey k \<in> nkey ` set seen"
    unfolding image_iff by (blast intro: sym)
  finally show ?thesis
    using assms(2) by (simp add: key_in_seen_def list_ex_iff)
qed

lemma length_keep_first: "length (keep_first earlier items) \<le> length items"
  by (induction items arbitrary: earlier) (auto intro: le_SucI)

lemma dedupe_loop_keep_first:
  assumes "keys_hashable items" "keys_hashable earlier"
    "\<forall>s \<in> set seen. py_hashable (fst (snd s))"
    "nkey ` set seen = nkey ` item_keys earlier"
  shows "dedupe_loop items seen kept dropped
         = Some (kept @ keep_first earlier items,
                 dropped + (length items - length (keep_first earlier items)))"
  using assms
proof (induction items arbitrary: earlier seen kept dropped)
  case Nil
  then show ?case by simp
next
  case (Cons it items)
  show ?case
  proof (cases "dedupe_key it")
    case None
    have "dedupe_loop (it # items) seen kept dropped = dedupe_loop items seen (kept @ [it]) dropped"
      by (simp add: None)
    also have "\<dots> = Some ((kept @ [it]) @ keep_first (earlier @ [it]) items,
        dropped + (length items - length (keep_first (earlier @ [it]) items)))"
      using Cons.prems by (intro Cons.IH) (simp_all add: None)
    finally show ?thesis
      using length_keep_first [of "earlier @ [it]" items]
      by (simp add: is_first_no_key [OF None])
  next
    case (Some k)
    with Cons.prems have hk: "py_hashable (fst (snd k))" by simp
    note first = is_first_nkey [OF Cons.prems(2) Some hk]
    note inseen = key_in_seen_nkey [OF Cons.prems(3) hk]
    show ?thesis
    proof (cases "nkey k \<in> nkey ` set seen")
      case True
      have "dedupe_loop (it # items) seen kept dropped = dedupe_loop items seen kept (dropped + 1)"
        by (simp add: Some inseen True)
      also have "\<dots> = Some (kept @ keep_first (earlier @ [it]) items,
          (dropped + 1) + (length items - length (keep_first (earlier @ [it]) items)))"
        using Cons.prems True Some hk by (intro Cons.IH) auto
      finally show ?thesis
        using True first Cons.prems(4) length_keep_first [of "earlier @ [it]" items]
        by simp
    next
      case False
      have "dedupe_loop (it # items) seen kept dropped
            = dedupe_loop items (seen @ [k]) (kept @ [it]) dropped"
        by (simp add: Some inseen False)
      also have "\<dots> = Some ((kept @ [it]) @ keep_first (earlier @ [it]) items,
          dropped + (length items - length (keep_first (earlier @ [it]) items)))"
        using Cons.prems False Some hk by (intro Cons.IH) auto
      finally show ?thesis
        using False first Cons.prems(4) length_keep_first [of "earlier @ [it]" items]
        by simp
    qed
  qed
qed

lemma dedupe_items_keep_first:
  assumes "keys_hashable items"
  shows "dedupe_items items
         = Some (keep_first [] items, length items - length (keep_first [] items))"
  using dedupe_loop_keep_first [OF assms, of "[]" "[]" "[]" 0]
  by (simp add: dedupe_items_def)

lemma dedupe_loop_returns_hashable:
  assumes "dedupe_loop items seen kept dropped = Some res"
  shows "keys_hashable items"
  using assms
proof (induction items arbitrary: seen kept dropped)
  case Nil
  then show ?case by simp
next
  case (Cons it items)
  then show ?case
    by (cases "dedupe_key it")
       (auto simp: key_in_seen_def bind_eq_Some_conv split: if_splits)
qed

lemma dedupe_items_returns_iff:
  "(\<exists>res. dedupe_items items = Some res) \<longleftrightarrow> keys_hashable items"
  using dedupe_loop_returns_hashable [of items "[]" "[]" 0] dedupe_items_keep_first [of items]
  by (auto simp: dedupe_items_def)

lemma set_keep_first: "set (keep_first earlier items) \<subseteq> set items"
  by (induction items arbitrary: earlier) auto

lemma subseq_keep_first: "subseq (keep_first earlier items) items"
  by (induction items arbitrary: earlier) auto

lemma keep_first_no_key:
  assumes "it \<in> set items" "dedupe_key it = None"
  shows "it \<in> set (keep_first earlier items)"
  using assms
  by (induction items arbitrary: earlier) (auto simp: is_first_no_key)

lemma dedupe_key_iff:
  "dedupe_key it = Some k \<longleftrightarrow>
     (\<exists>stem c s u v m.
        py_getitem it ''stem'' = Some stem \<and> py_getitem stem ''context'' = Some c
        \<and> py_getitem c ''item_name'' = Some (JStr s) \<and> py_getitem c ''x_unit'' = Some u
        \<and> py_getitem c ''slope_m'' = Some v \<and> py_int v = Some m
        \<and> k = (py_strip (py_lower s), u, m))"
proof (cases "py_getitem it ''stem''")
  case None
  then show ?thesis by (simp add: dedupe_key_def)
next
  case stem: (Some stem)
  show ?thesis
  proof (cases "py_getitem stem ''context''")
    case None
    then show ?thesis by (simp add: dedupe_key_def stem)
  next
    case c: (Some c)
    show ?thesis
    proof (cases "py_getitem c ''item_name''")
      case None
      then show ?thesis by (simp add: dedupe_key_def stem c)
    next
      case (Some nm)
      then show ?thesis
        by (cases nm) (auto simp: dedupe_key_def stem c bind_eq_Some_conv)
    qed
  qed
qed

text \<open>
  Claim C8, as amended. For every batch in which each key that can be extracted
  has an \<open>x_unit\<close> that can be hashed: \<open>dedupe_items\<close> returns, in batch order, the
  items that no earlier item shares the canonical key with, and counts the others
  as dropped; every item whose key cannot be extracted is kept. The key of an
  item can be extracted exactly when the item has a \<open>stem\<close> with a \<open>context\<close>
  that has a string \<open>item_name\<close>, an \<open>x_unit\<close> and a \<open>slope_m\<close> that \<open>int\<close>
  converts, and it is then \<open>(item_name lowercased and trimmed, x_unit,
  int(slope_m))\<close>. An item named \<open>Bananas\<close> with unit \<open>kg\<close> and slope 8 followed
  by one named \<open>bananas\<close> with the same unit and slope has the second dropped.
\<close>

theorem dedupe_keeps_first:
  assumes "keys_hashable items"
  shows "dedupe_items items
           = Some (keep_first [] items, length items - length (keep_first [] items))
         \<and> subseq (keep_first [] items) items
         \<and> (\<forall>it \<in> set items. dedupe_key it = None \<longrightarrow> it \<in> set (keep_first [] items))
         \<and> (\<forall>it k. dedupe_key it = Some k \<longleftrightarrow>
               (\<exists>stem c s u v m.
                  py_getitem it ''stem'' = Some stem \<and> py_getitem stem ''context'' = Some c
                  \<and> py_getitem c ''item_name'' = Some (JStr s) \<and> py_getitem c ''x_unit'' = Some u
                  \<and> py_getitem c ''slope_m'' = Some v \<and> py_int v = Some m
                  \<and> k = (py_strip (py_lower s), u, m)))
         \<and> dedupe_items [example_item, example_item_lower] = Some ([example_item], 1)"
proof -
  have scenario: "dedupe_items [example_item, example_item_lower] = Some ([example_item], 1)"
    by code_simp
  have kept: "\<forall>it \<in> set items. dedupe_key it = None \<longrightarrow> it \<in> set (keep_first [] items)"
    using keep_first_no_key [of _ items "[]"] by blast
  have key: "\<forall>it k. dedupe_key it = Some k \<longleftrightarrow>
               (\<exists>stem c s u v m.
                  py_getitem it ''stem'' = Some stem \<and> py_getitem stem ''context'' = Some c
                  \<and> py_getitem c ''item_name'' = Some (JStr s) \<and> py_getitem c ''x_unit'' = Some u
                  \<and> py_getitem c ''slope_m'' = Some v \<and> py_int v = Some m
                  \<and> k = (py_strip (py_lower s), u, m))"
    by (intro allI) (rule dedupe_key_iff)
  from dedupe_items_keep_first [OF assms] subseq_keep_first [of "[]" items] kept key scenario
  show ?thesis by (intro conjI)
qed

theorem dedupe_keeps_first_witness:
  "keys_hashable [example_item, example_item_lower, example_item_slope_sep, JNull]
   \<and> dedupe_key example_item = Some (''bananas'', JStr ''kg'', 8)
   \<and> dedupe_key example_item_lower = Some (''bananas'', JStr ''kg'', 8)
   \<and> dedupe_key example_item_slope_sep = None
   \<and> dedupe_key JNull = None
   \<and> dedupe_items [example_item, example_item_lower, example_item_slope_sep, JNull]
       = Some ([example_item, example_item_slope_sep, JNull], 1)"
proof -
  have h: "keys_hashable [example_item, example_item_lower, example_item_slope_sep, JNull]"
    by code_simp
  have k: "keep_first [] [example_item, example_item_lower, example_item_slope_sep, JNull]
           = [example_item, example_item_slope_sep, JNull]"
    by code_simp
  have n: "dedupe_key example_item = Some (''bananas'', JStr ''kg'', 8)"
    "dedupe_key example_item_lower = Some (''bananas'', JStr ''kg'', 8)"
    "dedupe_key example_item_slope_sep = None"
    "dedupe_key JNull = None"
    by code_simp+
  from dedupe_keeps_first [OF h]
  have "dedupe_items [example_item, example_item_lower, example_item_slope_sep, JNull]
        = Some (keep_first [] [example_item, example_item_lower, example_item_slope_sep, JNull],
                length [example_item, example_item_lower, example_item_slope_sep, JNull]
                  - length (keep_first []
                      [example_item, example_item_lower, example_item_slope_sep, JNull]))"
    by (elim conjE)
  then show ?thesis
    using h n unfolding k by simp
qed

text \<open>
  The pass does not return on every batch: the key of an item with a list as its
  \<open>x_unit\<close> is extracted, and its look-up in the set of seen keys raises. And the
  third component of the key is \<open>int(slope_m)\<close>, not \<open>slope_m\<close>: an item with the
  slope \<open>"8"\<close> is dropped after one with the slope \<open>8\<close>, which it is not equal to.
\<close>

theorem dedupe_list_unit_counterexample:
  "dedupe_key example_item_list_unit = Some (''bananas'', JList [JStr ''kg''], 8)
   \<and> dedupe_items [example_item_list_unit] = None
   \<and> dedupe_items [example_item, example_item_slope_str] = Some ([example_item], 1)
   \<and> \<not> py_eq (JStr ''8'') (JInt 8)"
  by code_simp

subsection \<open>Running the validator on its own output\<close>

lemma all_first_keep_first: "all_first earlier xs \<Longrightarrow> keep_first earlier xs = xs"
  by (induction xs arbitrary: earlier) auto

lemma is_first_mono: "set earlier' \<subseteq> set earlier \<Longrightarrow> is_first earlier it \<Longrightarrow> is_first earlier' it"
  by (auto simp: is_first_def list_ex_iff)

lemma all_first_filter_keep_first:
  assumes "set earlier' \<subseteq> set earlier"
  shows "all_first earlier' (filter P (keep_first earlier items))"
  using assms
proof (induction items arbitrary: earlier earlier')
  case Nil
  then show ?case by simp
next
  case (Cons it items)
  have sub1: "set earlier' \<subseteq> set (earlier @ [it])" using Cons.prems by auto
  have sub2: "set (earlier' @ [it]) \<subseteq> set (earlier @ [it])" using Cons.prems by auto
  show ?case
  proof (cases "is_first earlier it \<and> P it")
    case True
    with Cons.prems have "is_first earlier' it" by (blast intro: is_first_mono)
    with True Cons.IH [OF sub2] show ?thesis by simp
  next
    case False
    with Cons.IH [OF sub1] show ?thesis by auto
  qed
qed

lemma keys_hashable_subset:
  assumes "keys_hashable items" "set xs \<subseteq> set items"
  shows "keys_hashable xs"
  using assms unfolding keys_hashable_def list_all_iff by blast

lemma validate_loop_passed:
  assumes "validate_loop xs passed failed = Some (p, f)"
  shows "p = passed @ filter (\<lambda>it. validate_item it = Some (True, [])) xs"
  using assms
proof (induction xs arbitrary: passed failed)
  case Nil
  then show ?case by simp
next
  case (Cons it xs)
  from Cons.prems obtain ok reasons where v: "validate_item it = Some (ok, reasons)"
    by (auto simp: bind_eq_Some_conv)
  note verdict = validate_item_verdict [OF v]
  show ?case
  proof (cases ok)
    case True
    with v verdict have e: "validate_item it = Some (True, [])" by simp
    from Cons.prems have "validate_loop xs (passed @ [it]) failed = Some (p, f)"
      by (simp add: e)
    from Cons.IH [OF this] show ?thesis by (simp add: e)
  next
    case False
    with v have ne: "validate_item it \<noteq> Some (True, [])" by simp
    from Cons.prems False v obtain failed' where
      "validate_loop xs passed failed' = Some (p, f)"
      by (auto simp: bind_eq_Some_conv)
    from Cons.IH [OF this] show ?thesis by (simp add: ne)
  qed
qed

lemma validate_loop_all_pass:
  assumes "\<forall>it \<in> set xs. validate_item it = Some (True, [])"
  shows "validate_loop xs passed failed = Some (passed @ xs, failed)"
  using assms by (induction xs arbitrary: passed) simp_all

text \<open>
  Claim C9. For every batch on which the validator run completes: running it
  again on its passed-output drops no item as a duplicate, passes every item and
  fails none, so the passed-output is the same list; and every item of the
  passed-output, validated on its own, has an empty violation list.
\<close>

theorem validator_idempotent:
  assumes "run_validator items = Some r"
  shows "dedupe_items (passed_items r) = Some (passed_items r, 0)
         \<and> (\<forall>it \<in> set (passed_items r). validate_item it = Some (True, []))
         \<and> run_validator (passed_items r)
             = Some \<lparr>passed_items = passed_items r, failed_items = [], dropped_dupes = 0\<rparr>"
proof -
  from assms obtain items' dropped passed failed where
    d: "dedupe_items items = Some (items', dropped)"
    and v: "validate_loop items' [] [] = Some (passed, failed)"
    and r: "r = \<lparr>passed_items = passed, failed_items = failed, dropped_dupes = dropped\<rparr>"
    by (auto simp: run_validator_def bind_eq_Some_conv)
  from d have kh: "keys_hashable items"
    using dedupe_items_returns_iff by blast
  from d dedupe_items_keep_first [OF kh] have items': "items' = keep_first [] items"
    by simp
  let ?ok = "\<lambda>it. validate_item it = Some (True, [])"
  from validate_loop_passed [OF v] have passed: "passed = filter ?ok (keep_first [] items)"
    by (simp add: items')
  have sub: "set passed \<subseteq> set items"
    unfolding passed using set_keep_first [of "[]" items] by auto
  have khp: "keys_hashable passed"
    by (rule keys_hashable_subset [OF kh sub])
  have "all_first [] passed"
    unfolding passed by (rule all_first_filter_keep_first) simp
  then have kf: "keep_first [] passed = passed"
    by (rule all_first_keep_first)
  have dd: "dedupe_items passed = Some (passed, 0)"
    using dedupe_items_keep_first [OF khp] by (simp add: kf)
  have all_ok: "\<forall>it \<in> set passed. validate_item it = Some (True, [])"
    unfolding passed by simp
  have vl: "validate_loop passed [] [] = Some (passed, [])"
    using validate_loop_all_pass [OF all_ok, of "[]" "[]"] by simp
  have "run_validator passed
        = Some \<lparr>passed_items = passed, failed_items = [], dropped_dupes = 0\<rparr>"
    by (simp add: run_validator_def dd vl)
  with dd all_ok show ?thesis
    by (simp add: r)
qed

theorem validator_idempotent_witness:
  "run_validator [example_item, example_item_lower, JObj example_fields_no_id]
     = Some \<lparr>passed_items = [example_item],
             failed_items = [(''<no-id>'', [''missing key: id''])],
             dropped_dupes = 1\<rparr>
   \<and> run_validator [example_item]
       = Some \<lparr>passed_items = [example_item], failed_items = [], dropped_dupes = 0\<rparr>"
proof -
  have run: "run_validator [example_item, example_item_lower, JObj example_fields_no_id]
     = Some \<lparr>passed_items = [example_item],
             failed_items = [(''<no-id>'', [''missing key: id''])],
             dropped_dupes = 1\<rparr>"
    by code_simp
  from validator_idempotent [OF run] show ?thesis
    using run by simp
qed

subsection \<open>Table violations\<close>

lemma table_part_Nil [simp]: "table_part [] = []"
  by (simp add: table_part_def)

lemma table_part_empty_iff: "table_part errs = [] \<longleftrightarrow> (\<forall>m \<in> set table_msgs. m \<notin> set errs)"
  by (auto simp: table_part_def filter_empty_conv)

lemma table_part_require_other:
  "msg \<notin> set table_msgs \<Longrightarrow> table_part (require c errs msg) = table_part errs"
  by (simp add: table_part_def require_def)

lemma table_part_require_table:
  "msg \<in> set table_msgs \<Longrightarrow>
   table_part (require c errs msg) = table_part errs @ (if c then [] else [msg])"
  by (simp add: table_part_def require_def)

text \<open>
  No message of another section is a table message: those start with
  \<open>unit_price.\<close>, \<open>amount.\<close> or \<open>total.\<close>.
\<close>

lemma table_part_require_char:
  assumes "c \<noteq> CHR ''u''" "c \<noteq> CHR ''a''" "c \<noteq> CHR ''t''"
  shows "table_part (require cond errs (c # s)) = table_part errs"
  using assms by (intro table_part_require_other) (auto simp: table_msgs_def)

lemma table_part_require_answers:
  "table_part (require cond errs (CHR ''a'' # CHR ''n'' # s)) = table_part errs"
  by (intro table_part_require_other) (auto simp: table_msgs_def)

lemma table_part_require_tokens:
  "table_part (require cond errs (CHR ''t'' # CHR ''o'' # CHR ''k'' # s)) = table_part errs"
  by (intro table_part_require_other) (auto simp: table_msgs_def)

lemmas table_part_other =
  table_part_require_char table_part_require_answers table_part_require_tokens

lemma check_context_table_part:
  assumes "check_context item errs = Some (cv, errs')"
  shows "table_part errs' = table_part errs"
  using assms
  by (auto simp: check_context_def bind_eq_Some_conv Let_def table_part_other
      split: option.splits prod.splits)

lemma ticks_loop_table_part:
  assumes "ticks_loop m ps errs = Some errs'"
  shows "table_part errs' = table_part errs"
  using assms
proof (induction ps arbitrary: errs)
  case Nil
  then show ?case by simp
next
  case (Cons p ps)
  obtain xi yi where p: "p = (xi, yi)" by (cases p)
  from Cons.prems show ?case
    by (auto simp: p bind_eq_Some_conv table_part_other dest!: Cons.IH)
qed

lemma tokens_loop_table_part:
  assumes "tokens_loop m ts seen errs = Some errs'"
  shows "table_part errs' = table_part errs"
  using assms
proof (induction ts arbitrary: seen errs)
  case Nil
  then show ?case by simp
next
  case (Cons t ts)
  from Cons.prems show ?case
    by (auto simp: bind_eq_Some_conv Let_def table_part_other dest!: Cons.IH split: if_splits)
qed

lemma syms_loop_table_part:
  assumes "syms_loop labels syms errs = Some errs'"
  shows "table_part errs' = table_part errs"
  using assms
proof (induction syms arbitrary: errs)
  case Nil
  then show ?case by simp
next
  case (Cons symb syms)
  from Cons.prems show ?case
    by (auto simp: bind_eq_Some_conv table_part_other dest!: Cons.IH)
qed

lemma fills_loop_table_part:
  assumes "fills_loop labels fs errs = Some errs'"
  shows "table_part errs' = table_part errs"
  using assms
proof (induction fs arbitrary: errs)
  case Nil
  then show ?case by simp
next
  case (Cons f fs)
  from Cons.prems show ?case
    by (auto simp: bind_eq_Some_conv Let_def table_part_other dest!: Cons.IH syms_loop_table_part)
qed

lemma expect_loop_table_part:
  assumes "expect_loop fills exs errs = Some errs'"
  shows "table_part errs' = table_part errs"
  using assms
proof (induction exs arbitrary: errs)
  case Nil
  then show ?case by simp
next
  case (Cons ex exs)
  from Cons.prems show ?case
    by (auto simp: bind_eq_Some_conv table_part_other dest!: Cons.IH)
qed

lemma check_ticks_table_part:
  assumes "check_ticks m x_ticks y_ticks errs = Some errs'"
  shows "table_part errs' = table_part errs"
  using assms
  by (auto simp: check_ticks_def bind_eq_Some_conv table_part_other
      dest!: ticks_loop_table_part split: if_splits)

lemma check_line_points_table_part:
  assumes "check_line_points m line_pts errs = Some errs'"
  shows "table_part errs' = table_part errs"
  using assms
  by (auto simp: check_line_points_def bind_eq_Some_conv table_part_other
      split: if_splits)

lemma check_graph_table_part:
  assumes "check_graph item cv errs = Some errs'"
  shows "table_part errs' = table_part errs"
  using assms
  by (auto simp: check_graph_def bind_eq_Some_conv table_part_other
      dest!: check_ticks_table_part check_line_points_table_part)

lemma check_tokens_table_part:
  assumes "check_tokens item cv errs = Some (eq_tmpl, tokens, errs')"
  shows "table_part errs' = table_part errs"
  using assms
  by (auto simp: check_tokens_def bind_eq_Some_conv Let_def table_part_other
      dest!: tokens_loop_table_part split: json.splits)

lemma check_answers_table_part:
  assumes "check_answers item cv eq_tmpl tokens errs = Some errs'"
  shows "table_part errs' = table_part errs"
  using assms
  by (auto simp: check_answers_def bind_eq_Some_conv Let_def table_part_other
      dest!: fills_loop_table_part expect_loop_table_part)

lemma check_explanation_table_part:
  assumes "check_explanation item cv errs = Some errs'"
  shows "table_part errs' = table_part errs"
  using assms
  by (auto simp: check_explanation_def bind_eq_Some_conv Let_def table_part_other)

lemma table_msgs_mem:
  "''unit_price.value must equal slope_m'' \<in> set table_msgs"
  "''unit_price.display must include '' @ quoted ''$'' @ '', slope_m, and ''
     @ quoted ''/{x_unit_label}'' \<in> set table_msgs"
  "''amount.value must be 1..10'' \<in> set table_msgs"
  "''amount.display must be '' @ quoted ''<amount> {x_unit}'' \<in> set table_msgs"
  "''total.value must equal slope_m * amount.value'' \<in> set table_msgs"
  "''total.display must start with '' @ quoted ''$'' @ '' and include total value''
     \<in> set table_msgs"
  by (simp_all add: table_msgs_def)

lemma table_part_six:
  assumes "m1 \<in> set table_msgs" "m2 \<in> set table_msgs" "m3 \<in> set table_msgs"
    "m4 \<in> set table_msgs" "m5 \<in> set table_msgs" "m6 \<in> set table_msgs"
    "table_part errs = []"
  shows "table_part (require c6 (require c5 (require c4 (require c3 (require c2
           (require c1 errs m1) m2) m3) m4) m5) m6) = []
         \<longleftrightarrow> c1 \<and> c2 \<and> c3 \<and> c4 \<and> c5 \<and> c6"
  using assms by (simp add: table_part_require_table)

lemma int_between_pos: "is_pos_int v \<and> int_between 1 10 v \<longleftrightarrow> int_between 1 10 v"
  by (cases v) auto

lemma check_table_rules:
  assumes run: "check_table item cv errs = Some errs'" and clean: "table_part errs = []"
  shows "\<exists>up_val up_disp amt_val amt_disp tot_val tot_disp.
           table_fields item = Some (up_val, up_disp, amt_val, amt_disp, tot_val, tot_disp)
           \<and> (table_part errs' = [] \<longleftrightarrow>
                (is_pos_int up_val \<and> py_eq up_val (slope_m cv))
                \<and> (prefix ''$'' up_disp \<and> sublist (''/'' @ x_ulab cv) up_disp
                     \<and> sublist (py_str (slope_m cv)) up_disp)
                \<and> int_between 1 10 amt_val
                \<and> (suffix ('' '' @ x_unit cv) amt_disp \<and> sublist (py_str amt_val) amt_disp)
                \<and> (is_pos_int tot_val
                     \<and> (\<exists>prod. py_mul (slope_m cv) amt_val = Some prod \<and> py_eq tot_val prod))
                \<and> (prefix ''$'' tot_disp \<and> sublist (py_str tot_val) tot_disp))"
proof -
  from run obtain tf where tf: "table_fields item = Some tf"
    by (auto simp: check_table_def bind_eq_Some_conv)
  obtain up_val up_disp amt_val amt_disp tot_val tot_disp where
    tfv: "tf = (up_val, up_disp, amt_val, amt_disp, tot_val, tot_disp)"
    by (cases tf) auto
  from run obtain tot_ok where
    tot: "(if is_pos_int tot_val
           then do { prod \<leftarrow> py_mul (slope_m cv) amt_val; Some (py_eq tot_val prod) }
           else Some False) = Some tot_ok"
    and errs': "errs' =
      require (prefix ''$'' tot_disp \<and> sublist (py_str tot_val) tot_disp)
        (require tot_ok
          (require (suffix ('' '' @ x_unit cv) amt_disp \<and> sublist (py_str amt_val) amt_disp)
            (require (is_pos_int amt_val \<and> int_between 1 10 amt_val)
              (require (prefix ''$'' up_disp \<and> sublist (''/'' @ x_ulab cv) up_disp
                          \<and> sublist (py_str (slope_m cv)) up_disp)
                (require (is_pos_int up_val \<and> py_eq up_val (slope_m cv)) errs
                   ''unit_price.value must equal slope_m'')
                (''unit_price.display must include '' @ quoted ''$'' @ '', slope_m, and ''
                   @ quoted ''/{x_unit_label}''))
              ''amount.value must be 1..10'')
            (''amount.display must be '' @ quoted ''<amount> {x_unit}''))
          ''total.value must equal slope_m * amount.value'')
        (''total.display must start with '' @ quoted ''$'' @ '' and include total value'')"
    unfolding check_table_def tf tfv
    by (simp only: bind.bind_lunit prod.case Let_def bind_eq_Some_conv option.inject) blast
  from tot have tot_iff: "tot_ok \<longleftrightarrow>
      is_pos_int tot_val
      \<and> (\<exists>prod. py_mul (slope_m cv) amt_val = Some prod \<and> py_eq tot_val prod)"
    by (auto simp: bind_eq_Some_conv split: if_splits)
  have "table_part errs' = [] \<longleftrightarrow>
      (is_pos_int up_val \<and> py_eq up_val (slope_m cv))
      \<and> (prefix ''$'' up_disp \<and> sublist (''/'' @ x_ulab cv) up_disp
           \<and> sublist (py_str (slope_m cv)) up_disp)
      \<and> (is_pos_int amt_val \<and> int_between 1 10 amt_val)
      \<and> (suffix ('' '' @ x_unit cv) amt_disp \<and> sublist (py_str amt_val) amt_disp)
      \<and> tot_ok
      \<and> (prefix ''$'' tot_disp \<and> sublist (py_str tot_val) tot_disp)"
    unfolding errs' by (rule table_part_six [OF table_msgs_mem clean])
  then show ?thesis
    unfolding tot_iff int_between_pos using tf tfv by blast
qed

lemma table_fields_cells:
  assumes "table_fields item = Some (up_val, up_disp, amt_val, amt_disp, tot_val, tot_disp)"
  shows "table_cell item ''unit_price'' ''value'' JNull = Some up_val"
    and "table_display item ''unit_price'' = Some up_disp"
    and "table_cell item ''amount'' ''value'' JNull = Some amt_val"
    and "table_display item ''amount'' = Some amt_disp"
    and "table_cell item ''total'' ''value'' JNull = Some tot_val"
    and "table_display item ''total'' = Some tot_disp"
  using assms
  by (auto simp: table_fields_def table_cell_def table_display_def bind_eq_Some_conv)

lemma check_context_fields:
  assumes "check_context item errs = Some (cv, errs')"
  shows "context_field item ''slope_m'' JNull = Some (slope_m cv)"
    and "context_text item ''x_unit_label'' = Some (x_ulab cv)"
    and "context_text item ''x_unit'' = Some (x_unit cv)"
  using assms
  unfolding check_context_def context_field_def context_text_def
  by (simp_all only: bind_eq_Some_conv Let_def)
     (elim exE conjE; simp add: bind_eq_Some_conv; fastforce)+

lemma table_rules_of_item:
  assumes run: "validate_item item = Some (ok, errs)"
    and keys: "check_root_keys item REQ_ROOT_KEYS [] = Some []"
  shows "\<exists>cv errs0 up_val up_disp amt_val amt_disp tot_val tot_disp.
           check_context item [] = Some (cv, errs0)
           \<and> table_fields item = Some (up_val, up_disp, amt_val, amt_disp, tot_val, tot_disp)
           \<and> ((\<forall>m \<in> set table_msgs. m \<notin> set errs) \<longleftrightarrow>
                (is_pos_int up_val \<and> py_eq up_val (slope_m cv))
                \<and> (prefix ''$'' up_disp \<and> sublist (''/'' @ x_ulab cv) up_disp
                     \<and> sublist (py_str (slope_m cv)) up_disp)
                \<and> int_between 1 10 amt_val
                \<and> (suffix ('' '' @ x_unit cv) amt_disp \<and> sublist (py_str amt_val) amt_disp)
                \<and> (is_pos_int tot_val
                     \<and> (\<exists>prod. py_mul (slope_m cv) amt_val = Some prod \<and> py_eq tot_val prod))
                \<and> (prefix ''$'' tot_disp \<and> sublist (py_str tot_val) tot_disp))"
proof -
  from run keys obtain cv e1 e2 e3 e4 e5 eq_tmpl tokens where
    c1: "check_context item [] = Some (cv, e1)"
    and c2: "check_table item cv e1 = Some e2"
    and c3: "check_graph item cv e2 = Some e3"
    and c4: "check_tokens item cv e3 = Some (eq_tmpl, tokens, e4)"
    and c5: "check_answers item cv eq_tmpl tokens e4 = Some e5"
    and c6: "check_explanation item cv e5 = Some errs"
    by (auto simp: validate_item_def bind_eq_Some_conv split: if_splits prod.splits)
  have clean: "table_part e1 = []"
    using check_context_table_part [OF c1] by simp
  have "table_part errs = table_part e5"
    by (rule check_explanation_table_part [OF c6])
  also have "\<dots> = table_part e4"
    by (rule check_answers_table_part [OF c5])
  also have "\<dots> = table_part e3"
    by (rule check_tokens_table_part [OF c4])
  also have "\<dots> = table_part e2"
    by (rule check_graph_table_part [OF c3])
  finally have "table_part errs = table_part e2" .
  then have tp: "(\<forall>m \<in> set table_msgs. m \<notin> set errs) \<longleftrightarrow> table_part e2 = []"
    using table_part_empty_iff [of errs] by simp
  from check_table_rules [OF c2 clean] obtain up_val up_disp amt_val amt_disp tot_val tot_disp
    where tf: "table_fields item = Some (up_val, up_disp, amt_val, amt_disp, tot_val, tot_disp)"
    and rules: "table_part e2 = [] \<longleftrightarrow>
                (is_pos_int up_val \<and> py_eq up_val (slope_m cv))
                \<and> (prefix ''$'' up_disp \<and> sublist (''/'' @ x_ulab cv) up_disp
                     \<and> sublist (py_str (slope_m cv)) up_disp)
                \<and> int_between 1 10 amt_val
                \<and> (suffix ('' '' @ x_unit cv) amt_disp \<and> sublist (py_str amt_val) amt_disp)
                \<and> (is_pos_int tot_val
                     \<and> (\<exists>prod. py_mul (slope_m cv) amt_val = Some prod \<and> py_eq tot_val prod))
                \<and> (prefix ''$'' tot_disp \<and> sublist (py_str tot_val) tot_disp)"
    by blast
  from c1 tf tp rules show ?thesis
    by (intro exI conjI) (assumption | simp only:)+
qed

text \<open>
  Claim C5, as amended. For every item that has the eight required fields and on
  which \<open>validate_item\<close> returns: no table violation is among the reported
  violations if and only if \<open>unit_price.value\<close> is a positive integer equal to
  \<open>slope_m\<close>; the \<open>unit_price\<close> display, with the whitespace around it stripped,
  starts with \<open>$\<close> and contains \<open>/\<close> followed by the stripped \<open>x_unit_label\<close>, and
  contains \<open>str(slope_m)\<close>; \<open>amount.value\<close> is an integer in \<open>[1,10]\<close>; the
  stripped \<open>amount\<close> display ends with a space followed by the stripped \<open>x_unit\<close>
  and contains the amount value; \<open>total.value\<close> is a positive integer equal to
  \<open>slope_m * amount.value\<close>; and the stripped \<open>total\<close> display starts with \<open>$\<close>
  and contains the total value. A display or unit that is absent or false counts
  as the empty string. With slope 8 and amount 2 the total rule holds exactly for
  the total 16; the example item with total display \<open>$16.00\<close> passes, and with
  \<open>$15.00\<close> it fails with the total display violation.
\<close>

theorem table_violations_iff:
  assumes run: "validate_item item = Some (ok, errs)"
    and keys: "check_root_keys item REQ_ROOT_KEYS [] = Some []"
  shows "(\<exists>m ulab unit up_val up_disp amt_val amt_disp tot_val tot_disp.
           context_field item ''slope_m'' JNull = Some m
           \<and> context_text item ''x_unit_label'' = Some ulab
           \<and> context_text item ''x_unit'' = Some unit
           \<and> table_cell item ''unit_price'' ''value'' JNull = Some up_val
           \<and> table_display item ''unit_price'' = Some up_disp
           \<and> table_cell item ''amount'' ''value'' JNull = Some amt_val
           \<and> table_display item ''amount'' = Some amt_disp
           \<and> table_cell item ''total'' ''value'' JNull = Some tot_val
           \<and> table_display item ''total'' = Some tot_disp
           \<and> ((\<forall>msg \<in> set table_msgs. msg \<notin> set errs) \<longleftrightarrow>
                (is_pos_int up_val \<and> py_eq up_val m)
                \<and> (prefix ''$'' up_disp \<and> sublist (''/'' @ ulab) up_disp
                     \<and> sublist (py_str m) up_disp)
                \<and> int_between 1 10 amt_val
                \<and> (suffix ('' '' @ unit) amt_disp \<and> sublist (py_str amt_val) amt_disp)
                \<and> (is_pos_int tot_val
                     \<and> (\<exists>prod. py_mul m amt_val = Some prod \<and> py_eq tot_val prod))
                \<and> (prefix ''$'' tot_disp \<and> sublist (py_str tot_val) tot_disp))
           \<and> (m = JInt 8 \<and> amt_val = JInt 2 \<longrightarrow>
                 ((is_pos_int tot_val
                     \<and> (\<exists>prod. py_mul m amt_val = Some prod \<and> py_eq tot_val prod))
                  \<longleftrightarrow> tot_val = JInt 16)))
         \<and> validate_item example_item = Some (True, [])
         \<and> validate_item example_item_total_15
             = Some (False, [''total.display must start with '' @ quoted ''$''
                               @ '' and include total value''])"
proof -
  from table_rules_of_item [OF run keys]
  obtain cv errs0 up_val up_disp amt_val amt_disp tot_val tot_disp where
    c1: "check_context item [] = Some (cv, errs0)"
    and tf: "table_fields item = Some (up_val, up_disp, amt_val, amt_disp, tot_val, tot_disp)"
    and rules: "(\<forall>msg \<in> set table_msgs. msg \<notin> set errs) \<longleftrightarrow>
                (is_pos_int up_val \<and> py_eq up_val (slope_m cv))
                \<and> (prefix ''$'' up_disp \<and> sublist (''/'' @ x_ulab cv) up_disp
                     \<and> sublist (py_str (slope_m cv)) up_disp)
                \<and> int_between 1 10 amt_val
                \<and> (suffix ('' '' @ x_unit cv) amt_disp \<and> sublist (py_str amt_val) amt_disp)
                \<and> (is_pos_int tot_val
                     \<and> (\<exists>prod. py_mul (slope_m cv) amt_val = Some prod \<and> py_eq tot_val prod))
                \<and> (prefix ''$'' tot_disp \<and> sublist (py_str tot_val) tot_disp)"
    by blast
  note cx = check_context_fields [OF c1]
  note cells = table_fields_cells [OF tf]
  have sixteen: "slope_m cv = JInt 8 \<and> amt_val = JInt 2 \<longrightarrow>
                 ((is_pos_int tot_val
                     \<and> (\<exists>prod. py_mul (slope_m cv) amt_val = Some prod \<and> py_eq tot_val prod))
                  \<longleftrightarrow> tot_val = JInt 16)"
    by (cases tot_val) auto
  have pass: "validate_item example_item = Some (True, [])"
    by code_simp
  have fail: "validate_item example_item_total_15
             = Some (False, [''total.display must start with '' @ quoted ''$''
                               @ '' and include total value''])"
    by code_simp
  from cx cells rules sixteen
  have "\<exists>m ulab unit up_val up_disp amt_val amt_disp tot_val tot_disp.
           context_field item ''slope_m'' JNull = Some m
           \<and> context_text item ''x_unit_label'' = Some ulab
           \<and> context_text item ''x_unit'' = Some unit
           \<and> table_cell item ''unit_price'' ''value'' JNull = Some up_val
           \<and> table_display item ''unit_price'' = Some up_disp
           \<and> table_cell item ''amount'' ''value'' JNull = Some amt_val
           \<and> table_display item ''amount'' = Some amt_disp
           \<and> table_cell item ''total'' ''value'' JNull = Some tot_val
           \<and> table_display item ''total'' = Some tot_disp
           \<and> ((\<forall>msg \<in> set table_msgs. msg \<notin> set errs) \<longleftrightarrow>
                (is_pos_int up_val \<and> py_eq up_val m)
                \<and> (prefix ''$'' up_disp \<and> sublist (''/'' @ ulab) up_disp
                     \<and> sublist (py_str m) up_disp)
                \<and> int_between 1 10 amt_val
                \<and> (suffix ('' '' @ unit) amt_disp \<and> sublist (py_str amt_val) amt_disp)
                \<and> (is_pos_int tot_val
                     \<and> (\<exists>prod. py_mul m amt_val = Some prod \<and> py_eq tot_val prod))
                \<and> (prefix ''$'' tot_disp \<and> sublist (py_str tot_val) tot_disp))
           \<and> (m = JInt 8 \<and> amt_val = JInt 2 \<longrightarrow>
                 ((is_pos_int tot_val
                     \<and> (\<exists>prod. py_mul m amt_val = Some prod \<and> py_eq tot_val prod))
                  \<longleftrightarrow> tot_val = JInt 16))"
    by (intro exI conjI) (assumption | simp only:)+
  with pass fail show ?thesis by (intro conjI)
qed

theorem table_violations_iff_witness:
  "validate_item example_item = Some (True, [])
   \<and> check_root_keys example_item REQ_ROOT_KEYS [] = Some []
   \<and> context_field example_item ''slope_m'' JNull = Some (JInt 8)
   \<and> context_text example_item ''x_unit_label'' = Some ''kg''
   \<and> context_text example_item ''x_unit'' = Some ''kg''
   \<and> table_cell example_item ''unit_price'' ''value'' JNull = Some (JInt 8)
   \<and> table_display example_item ''unit_price'' = Some ''$8.00/kg''
   \<and> table_cell example_item ''amount'' ''value'' JNull = Some (JInt 2)
   \<and> table_display example_item ''amount'' = Some ''2 kg''
   \<and> table_cell example_item ''total'' ''value'' JNull = Some (JInt 16)
   \<and> table_display example_item ''total'' = Some ''$16.00''
   \<and> (is_pos_int (JInt 8) \<and> py_eq (JInt 8) (JInt 8))
   \<and> (prefix ''$'' ''$8.00/kg'' \<and> sublist (''/'' @ ''kg'') ''$8.00/kg''
        \<and> sublist (py_str (JInt 8)) ''$8.00/kg'')
   \<and> int_between 1 10 (JInt 2)
   \<and> (suffix ('' '' @ ''kg'') ''2 kg'' \<and> sublist (py_str (JInt 2)) ''2 kg'')
   \<and> (is_pos_int (JInt 16)
        \<and> (\<exists>prod. py_mul (JInt 8) (JInt 2) = Some prod \<and> py_eq (JInt 16) prod))
   \<and> (prefix ''$'' ''$16.00'' \<and> sublist (py_str (JInt 16)) ''$16.00'')"
proof -
  have run: "validate_item example_item = Some (True, [])"
    by code_simp
  have keys: "check_root_keys example_item REQ_ROOT_KEYS [] = Some []"
    by code_simp
  have v: "context_field example_item ''slope_m'' JNull = Some (JInt 8)"
    "context_text example_item ''x_unit_label'' = Some ''kg''"
    "context_text example_item ''x_unit'' = Some ''kg''"
    "table_cell example_item ''unit_price'' ''value'' JNull = Some (JInt 8)"
    "table_display example_item ''unit_price'' = Some ''$8.00/kg''"
    "table_cell example_item ''amount'' ''value'' JNull = Some (JInt 2)"
    "table_display example_item ''amount'' = Some ''2 kg''"
    "table_cell example_item ''total'' ''value'' JNull = Some (JInt 16)"
    "table_display example_item ''total'' = Some ''$16.00''"
    by code_simp+
  from table_violations_iff [OF run keys]
  obtain m ulab unit up_val up_disp amt_val amt_disp tot_val tot_disp where
    f: "context_field example_item ''slope_m'' JNull = Some m"
      "context_text example_item ''x_unit_label'' = Some ulab"
      "context_text example_item ''x_unit'' = Some unit"
      "table_cell example_item ''unit_price'' ''value'' JNull = Some up_val"
      "table_display example_item ''unit_price'' = Some up_disp"
      "table_cell example_item ''amount'' ''value'' JNull = Some amt_val"
      "table_display example_item ''amount'' = Some amt_disp"
      "table_cell example_item ''total'' ''value'' JNull = Some tot_val"
      "table_display example_item ''total'' = Some tot_disp"
    and iff: "(\<forall>msg \<in> set table_msgs. msg \<notin> set []) \<longleftrightarrow>
                (is_pos_int up_val \<and> py_eq up_val m)
                \<and> (prefix ''$'' up_disp \<and> sublist (''/'' @ ulab) up_disp
                     \<and> sublist (py_str m) up_disp)
                \<and> int_between 1 10 amt_val
                \<and> (suffix ('' '' @ unit) amt_disp \<and> sublist (py_str amt_val) amt_disp)
                \<and> (is_pos_int tot_val
                     \<and> (\<exists>prod. py_mul m amt_val = Some prod \<and> py_eq tot_val prod))
                \<and> (prefix ''$'' tot_disp \<and> sublist (py_str tot_val) tot_disp)"
    by blast
  from f v have e: "m = JInt 8" "ulab = ''kg''" "unit = ''kg''" "up_val = JInt 8"
    "up_disp = ''$8.00/kg''" "amt_val = JInt 2" "amt_disp = ''2 kg''" "tot_val = JInt 16"
    "tot_disp = ''$16.00''"
    by simp_all
  from iff have "(is_pos_int (JInt 8) \<and> py_eq (JInt 8) (JInt 8))
       \<and> (prefix ''$'' ''$8.00/kg'' \<and> sublist (''/'' @ ''kg'') ''$8.00/kg''
            \<and> sublist (py_str (JInt 8)) ''$8.00/kg'')
       \<and> int_between 1 10 (JInt 2)
       \<and> (suffix ('' '' @ ''kg'') ''2 kg'' \<and> sublist (py_str (JInt 2)) ''2 kg'')
       \<and> (is_pos_int (JInt 16)
            \<and> (\<exists>prod. py_mul (JInt 8) (JInt 2) = Some prod \<and> py_eq (JInt 16) prod))
       \<and> (prefix ''$'' ''$16.00'' \<and> sublist (py_str (JInt 16)) ''$16.00'')"
    unfolding e by simp
  with run keys v show ?thesis by (intro conjI) (assumption | elim conjE)+
qed

text \<open>
  Four items on which the rules as the claim words them and the reported table
  violations part: a rate display with \<open>$\<close> inside it but not at its start; a
  table that agrees with a slope of 0; an item without its \<open>id\<close>, whose table is
  not checked at all; and an item whose amount display ends with a newline and
  whose total display starts with spaces, which is reported no violation.
\<close>

theorem table_rules_counterexample:
  "validate_item example_item_usd
     = Some (False, [''unit_price.display must include '' @ quoted ''$'' @ '', slope_m, and ''
                       @ quoted ''/{x_unit_label}''])
   \<and> table_cell example_item_usd ''unit_price'' ''display'' (JStr []) = Some (JStr ''USD $8/kg'')
   \<and> sublist ''$'' ''USD $8/kg'' \<and> sublist ''/kg'' ''USD $8/kg'' \<and> sublist ''8'' ''USD $8/kg''
   \<and> map_option (\<lambda>r. table_part (snd r)) (validate_item example_item_slope_0)
       = Some [''unit_price.value must equal slope_m'',
               ''total.value must equal slope_m * amount.value'']
   \<and> table_fields example_item_slope_0 = Some (JInt 0, ''$0/kg'', JInt 2, ''2 kg'', JInt 0, ''$0'')
   \<and> validate_item (JObj example_fields_no_id_total_15) = Some (False, [''missing key: id''])
   \<and> validate_item example_item_padded = Some (True, [])
   \<and> table_cell example_item_padded ''amount'' ''display'' (JStr [])
       = Some (JStr (''2 kg'' @ [CHR 0x0A]))
   \<and> \<not> suffix '' kg'' (''2 kg'' @ [CHR 0x0A])
   \<and> table_cell example_item_padded ''total'' ''display'' (JStr []) = Some (JStr ''  $16.00'')
   \<and> \<not> prefix ''$'' ''  $16.00''"
  by code_simp

end
